theory Spec2Isabelle
  imports Main "HOL-Library.Sublist" "HOL-Library.Multiset"
begin

section \<open>Data model\<close>

text \<open>
  \<^verbatim>\<open>src/src/parquet-tools/types.ts\<close> and the drizzle schema of
  \<^verbatim>\<open>src/src/db/queries.ts\<close>: a node and an edge row. A column that may be
  \<^verbatim>\<open>null\<close> is an option. The field names carry a prefix, because record fields
  are global constants and both rows have a \<^verbatim>\<open>type\<close> and a \<^verbatim>\<open>properties\<close>.
  Strings are byte strings; the JavaScript strings of the source are UTF-16, and the
  model covers their ASCII part.
\<close>

record Node =
  n_knowledgeGraphId :: int
  n_id :: string
  n_name :: "string option"
  n_type :: "string option"
  n_properties :: "string option"

record Edge =
  e_knowledgeGraphId :: int
  e_from :: string
  e_to :: string
  e_type :: "string option"
  e_properties :: "string option"

text \<open>
  Every \<^verbatim>\<open>throw new Error(...)\<close> of the source is one constructor, named after its
  message. \<open>SqlSyntaxError\<close> is the error DuckDB raises on the text
  \<^verbatim>\<open>SELECT ... FROM () AS e\<close> that \<^verbatim>\<open>edgesSource([])\<close> produces;
  \<open>AmbiguousColumn\<close> and \<open>UndefinedColumn\<close> are the errors PostgreSQL raises for a
  column name that several relations in scope have, or none.
\<close>

datatype error =
    UnknownGraphId int
  | SqlSyntaxError
  | AmbiguousColumn string
  | UndefinedColumn string
  | FailedToFindPaths
  | KMustBe1Or2
  | EdgeTypeFilterNotSupportedK2
  | NodeNotFound string

text \<open>JavaScript truthiness of an optional string: \<^verbatim>\<open>undefined\<close>, \<^verbatim>\<open>null\<close> and
  \<^verbatim>\<open>""\<close> are falsy.\<close>

fun truthy :: "string option \<Rightarrow> bool" where
  "truthy None = False"
| "truthy (Some s) = (s \<noteq> [])"

text \<open>A JavaScript \<^verbatim>\<open>Set\<close> keeps insertion order and ignores a value it already has.\<close>

definition set_add :: "'a \<Rightarrow> 'a list \<Rightarrow> 'a list" where
  "set_add x s = (if x \<in> set s then s else s @ [x])"

definition new_Set :: "'a list \<Rightarrow> 'a list" where
  "new_Set xs = fold set_add xs []"

text \<open>The \<^verbatim>\<open>CASE WHEN e."from" = nid THEN e."to" ELSE e."from" END\<close> of the SQL, and
  the \<^verbatim>\<open>row.from === nodeId ? row.to : row.from\<close> of the relational version.\<close>

definition neighborOf :: "string \<Rightarrow> string \<Rightarrow> string \<Rightarrow> string" where
  "neighborOf nid fr t = (if fr = nid then t else fr)"

text \<open>The optional \<^verbatim>\<open>AND e.type = '...'\<close>: present only for a truthy filter; a
  \<^verbatim>\<open>NULL\<close> type never equals the filter.\<close>

definition typeFilter :: "string option \<Rightarrow> Edge \<Rightarrow> bool" where
  "typeFilter edgeType e = (if truthy edgeType then e_type e = edgeType else True)"

section \<open>The relational store (src/src/db/queries.ts)\<close>

text \<open>The two tables, in scan order. A query without \<^verbatim>\<open>ORDER BY\<close> returns the
  matching rows in that order.\<close>

record db =
  nodeTable :: "Node list"
  edgeTable :: "Edge list"

definition getNodesByIds_db :: "db \<Rightarrow> int list \<Rightarrow> string list \<Rightarrow> error + Node list" where
  "getNodesByIds_db d knowledgeGraphIds nodeIds =
     (if length nodeIds = 0 then Inr []
      else Inr (filter (\<lambda>n. n_knowledgeGraphId n \<in> set knowledgeGraphIds \<and> n_id n \<in> set nodeIds)
                 (nodeTable d)))"

definition getEdgesBetweenNodes_db :: "db \<Rightarrow> int list \<Rightarrow> string \<Rightarrow> string \<Rightarrow> error + Edge list" where
  "getEdgesBetweenNodes_db d knowledgeGraphIds node1Id node2Id =
     Inr (filter (\<lambda>e. e_knowledgeGraphId e \<in> set knowledgeGraphIds \<and>
                      ((e_from e = node1Id \<and> e_to e = node2Id) \<or>
                       (e_from e = node2Id \<and> e_to e = node1Id)))
            (edgeTable d))"

definition getNeighbors_db :: "db \<Rightarrow> int list \<Rightarrow> string \<Rightarrow> string option \<Rightarrow> error + string list" where
  "getNeighbors_db d knowledgeGraphIds nodeId edgeType =
     (let results = new_Set
            (map (\<lambda>e. (e_from e, e_to e))
               (filter (\<lambda>e. e_knowledgeGraphId e \<in> set knowledgeGraphIds \<and>
                             (e_from e = nodeId \<or> e_to e = nodeId) \<and>
                             typeFilter edgeType e)
                  (edgeTable d)));
          neighborIdsSet = new_Set (map (\<lambda>(fr, t). neighborOf nodeId fr t) results)
      in Inr neighborIdsSet)"

section \<open>Two-hop expansion\<close>

text \<open>The inner loop of \<^verbatim>\<open>getKHopNeighborIds\<close>: one neighbour's own neighbours are
  added to the set unless they are the start node or a one-hop neighbour.\<close>

definition addTwoHop :: "string \<Rightarrow> string list \<Rightarrow> string list \<Rightarrow> string list \<Rightarrow> string list" where
  "addTwoHop nodeId oneHopNeighbors neighborsOfNeighbor twoHopNeighbors =
     fold (\<lambda>twoHopNeighborId acc.
             if twoHopNeighborId \<noteq> nodeId \<and> twoHopNeighborId \<notin> set oneHopNeighbors
             then set_add twoHopNeighborId acc else acc)
          neighborsOfNeighbor twoHopNeighbors"

text \<open>The outer loop, over the one-hop neighbours still to visit; \<open>getN\<close> is the
  store's \<^verbatim>\<open>getNeighbors\<close> without an edge type, and its error ends the loop as the
  exception does.\<close>

fun twoHopLoop :: "(string \<Rightarrow> error + string list) \<Rightarrow> string \<Rightarrow> string list \<Rightarrow>
    string list \<Rightarrow> string list \<Rightarrow> error + string list" where
  "twoHopLoop getN nodeId oneHopNeighbors [] twoHopNeighbors = Inr twoHopNeighbors"
| "twoHopLoop getN nodeId oneHopNeighbors (neighborId # rest) twoHopNeighbors =
     (case getN neighborId of
        Inl err \<Rightarrow> Inl err
      | Inr neighborsOfNeighbor \<Rightarrow>
          twoHopLoop getN nodeId oneHopNeighbors rest
            (addTwoHop nodeId oneHopNeighbors neighborsOfNeighbor twoHopNeighbors))"

text \<open>\<^verbatim>\<open>getKHopNeighborIds\<close>, the same text in both stores, over the store's
  \<^verbatim>\<open>getNeighbors\<close>. The type of \<^verbatim>\<open>k\<close> is \<^verbatim>\<open>1 | 2\<close>; every value other than 1
  takes the two-hop branch, as in the source.\<close>

definition getKHopNeighborIds ::
  "(string \<Rightarrow> string option \<Rightarrow> error + string list) \<Rightarrow> string \<Rightarrow> nat \<Rightarrow> string option \<Rightarrow>
     error + string list" where
  "getKHopNeighborIds getNeighbors nodeId k edgeType =
     (if k = 1 then getNeighbors nodeId edgeType
      else if truthy edgeType then Inr []
      else (case getNeighbors nodeId None of
              Inl err \<Rightarrow> Inl err
            | Inr oneHopNeighbors \<Rightarrow>
                (case twoHopLoop (\<lambda>m. getNeighbors m None) nodeId oneHopNeighbors
                        oneHopNeighbors [] of
                   Inl err \<Rightarrow> Inl err
                 | Inr twoHopNeighbors \<Rightarrow> Inr (oneHopNeighbors @ twoHopNeighbors))))"

definition getKHopNeighborIds_db ::
  "db \<Rightarrow> int list \<Rightarrow> string \<Rightarrow> nat \<Rightarrow> string option \<Rightarrow> error + string list" where
  "getKHopNeighborIds_db d knowledgeGraphIds =
     getKHopNeighborIds (getNeighbors_db d knowledgeGraphIds)"

section \<open>The columnar store (src/src/parquet-tools/queries.ts)\<close>

text \<open>
  A parquet file is the list of its rows. The export script writes the columns
  \<^verbatim>\<open>id, name, type, properties\<close> and \<^verbatim>\<open>"from", "to", type, properties\<close>, so that a
  row has no graph id of its own; \<^verbatim>\<open>nodesSource\<close> and \<^verbatim>\<open>edgesSource\<close> add it.
  \<open>nodesPath\<close> and \<open>edgesPath\<close> stand for the files at these paths.
\<close>

record NodeRow =
  r_id :: string
  r_name :: "string option"
  r_type :: "string option"
  r_properties :: "string option"

record EdgeRow =
  r_from :: string
  r_to :: string
  r_etype :: "string option"
  r_eproperties :: "string option"

record GraphFiles =
  knowledgeGraphId :: int
  nodesPath :: "NodeRow list"
  edgesPath :: "EdgeRow list"

text \<open>\<^verbatim>\<open>files: Map<number, GraphFiles>\<close>, in insertion order; \<^verbatim>\<open>files.get(id)\<close> is
  \<open>map_of files id\<close>.\<close>

type_synonym Files = "(int \<times> GraphFiles) list"

definition selectNodes :: "GraphFiles \<Rightarrow> Node list" where
  "selectNodes f =
     map (\<lambda>r. \<lparr>n_knowledgeGraphId = knowledgeGraphId f, n_id = r_id r, n_name = r_name r,
                n_type = r_type r, n_properties = r_properties r\<rparr>) (nodesPath f)"

definition selectEdges :: "GraphFiles \<Rightarrow> Edge list" where
  "selectEdges f =
     map (\<lambda>r. \<lparr>e_knowledgeGraphId = knowledgeGraphId f, e_from = r_from r, e_to = r_to r,
                e_type = r_etype r, e_properties = r_eproperties r\<rparr>) (edgesPath f)"

text \<open>The \<^verbatim>\<open>.map\<close> over the graph ids: the first unknown id throws.\<close>

fun sourceParts :: "(GraphFiles \<Rightarrow> 'a list) \<Rightarrow> Files \<Rightarrow> int list \<Rightarrow> error + 'a list list" where
  "sourceParts sel files [] = Inr []"
| "sourceParts sel files (i # ids) =
     (case map_of files i of
        None \<Rightarrow> Inl (UnknownGraphId i)
      | Some f \<Rightarrow> (case sourceParts sel files ids of
                     Inl err \<Rightarrow> Inl err
                   | Inr parts \<Rightarrow> Inr (sel f # parts)))"

text \<open>
  \<^verbatim>\<open>nodesSource\<close> and \<^verbatim>\<open>edgesSource\<close> build the SQL text of a row source; the model
  gives the rows that text denotes. For no graph id at all the text is \<^verbatim>\<open>()\<close>, which
  no query can read: every caller runs its query right after building the source, and
  the model raises the syntax error here.
\<close>

definition rowSource :: "(GraphFiles \<Rightarrow> 'a list) \<Rightarrow> Files \<Rightarrow> int list \<Rightarrow> error + 'a list" where
  "rowSource sel files knowledgeGraphIds =
     (if length knowledgeGraphIds = 1 then
        (case map_of files (hd knowledgeGraphIds) of
           None \<Rightarrow> Inl (UnknownGraphId (hd knowledgeGraphIds))
         | Some f \<Rightarrow> Inr (sel f))
      else (case sourceParts sel files knowledgeGraphIds of
              Inl err \<Rightarrow> Inl err
            | Inr parts \<Rightarrow> if parts = [] then Inl SqlSyntaxError else Inr (concat parts)))"

definition nodesSource :: "Files \<Rightarrow> int list \<Rightarrow> error + Node list" where
  "nodesSource = rowSource selectNodes"

definition edgesSource :: "Files \<Rightarrow> int list \<Rightarrow> error + Edge list" where
  "edgesSource = rowSource selectEdges"

definition getNodesByIds_pq :: "Files \<Rightarrow> int list \<Rightarrow> string list \<Rightarrow> error + Node list" where
  "getNodesByIds_pq files knowledgeGraphIds nodeIds =
     (if length nodeIds = 0 then Inr []
      else (case nodesSource files knowledgeGraphIds of
              Inl err \<Rightarrow> Inl err
            | Inr src \<Rightarrow> Inr (filter (\<lambda>n. n_id n \<in> set nodeIds) src)))"

definition getEdgesBetweenNodes_pq ::
  "Files \<Rightarrow> int list \<Rightarrow> string \<Rightarrow> string \<Rightarrow> error + Edge list" where
  "getEdgesBetweenNodes_pq files knowledgeGraphIds node1Id node2Id =
     (case edgesSource files knowledgeGraphIds of
        Inl err \<Rightarrow> Inl err
      | Inr src \<Rightarrow>
          Inr (filter (\<lambda>e. (e_from e = node1Id \<and> e_to e = node2Id) \<or>
                           (e_from e = node2Id \<and> e_to e = node1Id)) src))"

text \<open>\<^verbatim>\<open>SELECT DISTINCT\<close> keeps one row of each value; the model keeps the first.\<close>

definition getNeighbors_pq ::
  "Files \<Rightarrow> int list \<Rightarrow> string \<Rightarrow> string option \<Rightarrow> error + string list" where
  "getNeighbors_pq files knowledgeGraphIds nodeId edgeType =
     (case edgesSource files knowledgeGraphIds of
        Inl err \<Rightarrow> Inl err
      | Inr src \<Rightarrow>
          Inr (new_Set (map (\<lambda>e. neighborOf nodeId (e_from e) (e_to e))
                 (filter (\<lambda>e. (e_from e = nodeId \<or> e_to e = nodeId) \<and> typeFilter edgeType e)
                    src))))"

definition getKHopNeighborIds_pq ::
  "Files \<Rightarrow> int list \<Rightarrow> string \<Rightarrow> nat \<Rightarrow> string option \<Rightarrow> error + string list" where
  "getKHopNeighborIds_pq files knowledgeGraphIds =
     getKHopNeighborIds (getNeighbors_pq files knowledgeGraphIds)"

section \<open>Name search\<close>

text \<open>
  \<open>ilike v text\<close> stands for the engine's \<^verbatim>\<open>v ILIKE '%text%'\<close> on a nullable column;
  the operator belongs to the database engine and is a parameter here. \<^verbatim>\<open>LIMIT\<close> keeps
  the first rows.
\<close>

definition searchNodesByName_pq ::
  "(string option \<Rightarrow> string \<Rightarrow> bool) \<Rightarrow> Files \<Rightarrow> string \<Rightarrow> int list option \<Rightarrow> nat \<Rightarrow>
     error + Node list" where
  "searchNodesByName_pq ilike files name knowledgeGraphIds limit =
     (let kgIds = (case knowledgeGraphIds of None \<Rightarrow> map fst files | Some ids \<Rightarrow> ids)
      in if length kgIds = 0 then Inr []
         else (case nodesSource files kgIds of
                 Inl err \<Rightarrow> Inl err
               | Inr src \<Rightarrow> Inr (take limit (filter (\<lambda>n. ilike (n_name n) name) src))))"

definition searchNodesByName_db ::
  "(string option \<Rightarrow> string \<Rightarrow> bool) \<Rightarrow> db \<Rightarrow> string \<Rightarrow> int list option \<Rightarrow> nat \<Rightarrow>
     error + Node list" where
  "searchNodesByName_db ilike d name knowledgeGraphIds limit =
     Inr (take limit
            (filter (\<lambda>n. (if name \<noteq> [] then ilike (n_name n) name else True) \<and>
                          (case knowledgeGraphIds of
                             None \<Rightarrow> True
                           | Some ids \<Rightarrow>
                               if length ids > 0 then n_knowledgeGraphId n \<in> set ids else True))
               (nodeTable d)))"

section \<open>Path finding\<close>

record PathLeg =
  tailNode :: Node
  l_edgeType :: string
  headNode :: Node

record Path =
  legs :: "PathLeg list"

text \<open>The two common table expressions: the edges at a node, each as the id at its
  other end and its type.\<close>

definition neighborsWithType :: "string \<Rightarrow> Edge list \<Rightarrow> (string \<times> string option) list" where
  "neighborsWithType nid edges =
     map (\<lambda>e. (neighborOf nid (e_from e) (e_to e), e_type e))
       (filter (\<lambda>e. e_from e = nid \<or> e_to e = nid) edges)"

text \<open>The inner join on the neighbour id, enumerated source row by source row.\<close>

definition innerJoin ::
  "(string \<times> string option) list \<Rightarrow> (string \<times> string option) list \<Rightarrow>
     (string \<times> string option \<times> string option) list" where
  "innerJoin sourceNeighbors destinationNeighbors =
     concat (map (\<lambda>s. map (\<lambda>d. (fst s, snd s, snd d))
                         (filter (\<lambda>d. fst s = fst d) destinationNeighbors))
               sourceNeighbors)"

text \<open>\<^verbatim>\<open>new Map(nodesInfo.map((n) => [n.id, n]))\<close>: a later row replaces an earlier
  one with the same id.\<close>

definition nodesMapOf :: "Node list \<Rightarrow> string \<Rightarrow> Node option" where
  "nodesMapOf nodesInfo = map_of (rev (map (\<lambda>n. (n_id n, n)) nodesInfo))"

fun mkPath :: "(string \<Rightarrow> Node option) \<Rightarrow> Node \<Rightarrow> Node \<Rightarrow>
    string \<times> string option \<times> string option \<Rightarrow> Path option" where
  "mkPath nodesMap sourceNode destinationNode (intermediateNodeId, sourceEdgeType, destinationEdgeType) =
     (case nodesMap intermediateNodeId of
        None \<Rightarrow> None
      | Some intermediateNode \<Rightarrow>
          (case (sourceEdgeType, destinationEdgeType) of
             (Some st, Some dt) \<Rightarrow>
               if st = [] \<or> dt = [] then None
               else Some \<lparr>legs =
                      [\<lparr>tailNode = sourceNode, l_edgeType = st, headNode = intermediateNode\<rparr>,
                       \<lparr>tailNode = intermediateNode, l_edgeType = dt, headNode = destinationNode\<rparr>]\<rparr>
           | _ \<Rightarrow> None))"

text \<open>The part of \<^verbatim>\<open>findPaths\<close> after the join, the same in both stores;
  \<open>fetch\<close> is the store's batched node lookup.\<close>

definition buildPaths ::
  "(string list \<Rightarrow> error + Node list) \<Rightarrow> string \<Rightarrow> string \<Rightarrow>
     (string \<times> string option \<times> string option) list \<Rightarrow> error + Path list" where
  "buildPaths fetch sourceNodeId destinationNodeId intermediateNodesInfo =
     (if length intermediateNodesInfo = 0 then Inr []
      else (case fetch (new_Set (sourceNodeId # destinationNodeId # map fst intermediateNodesInfo)) of
              Inl err \<Rightarrow> Inl err
            | Inr nodesInfo \<Rightarrow>
                (case (nodesMapOf nodesInfo sourceNodeId, nodesMapOf nodesInfo destinationNodeId) of
                   (Some sourceNode, Some destinationNode) \<Rightarrow>
                     Inr (List.map_filter (mkPath (nodesMapOf nodesInfo) sourceNode destinationNode)
                            intermediateNodesInfo)
                 | _ \<Rightarrow> Inr [])))"

definition findPaths_pq :: "Files \<Rightarrow> int list \<Rightarrow> string \<Rightarrow> string \<Rightarrow> error + Path list" where
  "findPaths_pq files knowledgeGraphIds sourceNodeId destinationNodeId =
     (case edgesSource files knowledgeGraphIds of
        Inl err \<Rightarrow> Inl err
      | Inr edgeSrc \<Rightarrow>
          (case nodesSource files knowledgeGraphIds of
             Inl err \<Rightarrow> Inl err
           | Inr nodeSrc \<Rightarrow>
               buildPaths (getNodesByIds_pq files knowledgeGraphIds) sourceNodeId destinationNodeId
                 (innerJoin (neighborsWithType sourceNodeId edgeSrc)
                            (neighborsWithType destinationNodeId edgeSrc))))"

text \<open>
  The relational version builds the two subqueries with drizzle. In each, the neighbour
  id is a raw SQL expression named by \<^verbatim>\<open>.as("neighborId")\<close>, and drizzle writes a
  reference to such a field as the bare alias, without the name of the subquery. The
  join condition \<^verbatim>\<open>eq(sourceNeighbors.neighborId, destinationNeighbors.neighborId)\<close>
  therefore reaches PostgreSQL as \<^verbatim>\<open>"neighborId" = "neighborId"\<close>, with both
  subqueries in scope. The columnar version writes the qualified
  \<^verbatim>\<open>s."neighborId" = d."neighborId"\<close> by hand.

  \<open>resolveColumn\<close> is the engine's resolution of an unqualified column name against
  the relations in scope, each given by its name and its columns.
\<close>

definition resolveColumn :: "(string \<times> string list) list \<Rightarrow> string \<Rightarrow> error + string" where
  "resolveColumn scope c =
     (case filter (\<lambda>rel. c \<in> set (snd rel)) scope of
        [] \<Rightarrow> Inl (UndefinedColumn c)
      | [rel] \<Rightarrow> Inr (fst rel)
      | _ \<Rightarrow> Inl (AmbiguousColumn c))"

text \<open>The join query of the relational \<^verbatim>\<open>findPaths\<close>: the engine resolves the
  column of the join condition first, and evaluates the join only if that succeeds.\<close>

definition intermediateNodesInfo_db ::
  "db \<Rightarrow> int list \<Rightarrow> string \<Rightarrow> string \<Rightarrow>
     error + (string \<times> string option \<times> string option) list" where
  "intermediateNodesInfo_db d knowledgeGraphIds sourceNodeId destinationNodeId =
     (let edges = filter (\<lambda>e. e_knowledgeGraphId e \<in> set knowledgeGraphIds) (edgeTable d);
          scope = [(''source_neighbors'', [''neighborId'', ''edgeType'']),
                   (''destination_neighbors'', [''neighborId'', ''edgeType''])]
      in (case resolveColumn scope ''neighborId'' of
            Inl err \<Rightarrow> Inl err
          | Inr rel \<Rightarrow>
              Inr (innerJoin (neighborsWithType sourceNodeId edges)
                             (neighborsWithType destinationNodeId edges))))"

text \<open>The whole body is in a \<^verbatim>\<open>try\<close> whose \<^verbatim>\<open>catch\<close> throws
  "Failed to find paths" for every error.\<close>

definition findPaths_db :: "db \<Rightarrow> int list \<Rightarrow> string \<Rightarrow> string \<Rightarrow> error + Path list" where
  "findPaths_db d knowledgeGraphIds sourceNodeId destinationNodeId =
     (case intermediateNodesInfo_db d knowledgeGraphIds sourceNodeId destinationNodeId of
        Inl err \<Rightarrow> Inl FailedToFindPaths
      | Inr intermediateNodesInfo \<Rightarrow>
          (case buildPaths (getNodesByIds_db d knowledgeGraphIds) sourceNodeId destinationNodeId
                  intermediateNodesInfo of
             Inl err \<Rightarrow> Inl FailedToFindPaths
           | Inr paths \<Rightarrow> Inr paths))"

section \<open>Surroundings search (makeSearchInSurroundingsTool)\<close>

definition STOPWORDS :: "string list" where
  "STOPWORDS =
     [''the'', ''a'', ''an'', ''and'', ''or'', ''but'', ''in'', ''on'', ''at'', ''to'', ''for'',
      ''of'', ''with'', ''by'', ''is'', ''are'', ''was'', ''were'', ''be'', ''been'', ''have'',
      ''has'', ''had'', ''do'', ''does'', ''did'', ''will'', ''would'', ''could'', ''should'',
      ''may'', ''might'', ''can'', ''must'', ''shall'', ''this'', ''that'', ''these'', ''those'',
      ''i'', ''you'', ''he'', ''she'', ''it'', ''we'', ''they'', ''me'', ''him'', ''her'', ''us'',
      ''them'']"

text \<open>\<^verbatim>\<open>toLowerCase\<close> on the ASCII letters.\<close>

definition toLowerChar :: "char \<Rightarrow> char" where
  "toLowerChar c =
     (let n = (of_char c :: nat) in if 65 \<le> n \<and> n \<le> 90 then char_of (n + 32) else c)"

definition toLowerCase :: "string \<Rightarrow> string" where
  "toLowerCase s = map toLowerChar s"

text \<open>\<^verbatim>\<open>s.replace("-", " ")\<close>: with a string as the pattern, JavaScript replaces the
  first occurrence only.\<close>

fun replace_hyphen :: "string \<Rightarrow> string" where
  "replace_hyphen [] = []"
| "replace_hyphen (c # cs) = (if c = CHR ''-'' then CHR '' '' # cs else c # replace_hyphen cs)"

text \<open>\<^verbatim>\<open>s.split(" ")\<close>: the pieces between single spaces; two spaces in a row give an
  empty piece, and the empty string gives one empty piece.\<close>

fun split_space :: "string \<Rightarrow> string list" where
  "split_space [] = [[]]"
| "split_space (c # cs) =
     (if c = CHR '' '' then [] # split_space cs
      else (case split_space cs of
              [] \<Rightarrow> [[c]]
            | w # ws \<Rightarrow> (c # w) # ws))"

definition queryWords :: "string \<Rightarrow> string list" where
  "queryWords query =
     filter (\<lambda>w. w \<notin> set STOPWORDS) (map toLowerCase (split_space (replace_hyphen query)))"

text \<open>\<^verbatim>\<open>a.includes(b)\<close> on strings is \<open>sublist b a\<close>: \<open>b\<close> occurs in \<open>a\<close> as a
  contiguous piece.\<close>

definition nameMatches :: "string \<Rightarrow> Node \<Rightarrow> bool" where
  "nameMatches query c =
     (case n_name c of None \<Rightarrow> False | Some nm \<Rightarrow> sublist (toLowerCase query) (toLowerCase nm))"

definition appearingWordsOf :: "string list \<Rightarrow> Node \<Rightarrow> string list" where
  "appearingWordsOf qws c =
     filter (\<lambda>qw. case n_properties c of None \<Rightarrow> False | Some p \<Rightarrow> sublist qw (toLowerCase p)) qws"

text \<open>A neighbour of the response: the node's five fields and the fields the steps
  of \<^verbatim>\<open>execute\<close> may add by object spread; \<open>None\<close> is a field the object lacks.\<close>

record Neighbor =
  nb_node :: Node
  relevance :: "nat option"
  appearingWords :: "string list option"
  matchExplanation :: "string option"
  edgesToCandidate :: "string option list option"
  edgesFromCandidate :: "string option list option"

definition plainNeighbor :: "Node \<Rightarrow> Neighbor" where
  "plainNeighbor c =
     \<lparr>nb_node = c, relevance = None, appearingWords = None, matchExplanation = None,
      edgesToCandidate = None, edgesFromCandidate = None\<rparr>"

text \<open>The decimal text of a number, as the template literal writes it.\<close>

fun showNat :: "nat \<Rightarrow> string" where
  "showNat n = (if n < 10 then [char_of (48 + n)] else showNat (n div 10) @ [char_of (48 + n mod 10)])"

fun joinComma :: "string list \<Rightarrow> string" where
  "joinComma [] = []"
| "joinComma [w] = w"
| "joinComma (w # ws) = w @ '', '' @ joinComma ws"

definition explain :: "Node \<times> string list \<Rightarrow> Neighbor" where
  "explain cw =
     (let rel = length (snd cw)
      in \<lparr>nb_node = fst cw, relevance = Some rel, appearingWords = Some (snd cw),
          matchExplanation =
            Some (showNat rel @ '' match'' @ (if rel = 1 then [] else ''es'') @ '': '' @
                  joinComma (snd cw)),
          edgesToCandidate = None, edgesFromCandidate = None\<rparr>)"

text \<open>\<^verbatim>\<open>candidatesInName\<close> and \<^verbatim>\<open>candidatesInProperties\<close>. In the latter a
  candidate travels with its \<^verbatim>\<open>appearingWords\<close>, and its \<^verbatim>\<open>relevance\<close> is their number.
  \<^verbatim>\<open>Array.prototype.sort\<close> is stable, and the comparator
  \<^verbatim>\<open>b.relevance - a.relevance\<close> orders by falling relevance: a stable sort on the
  key \<open>- relevance\<close>.\<close>

definition candidatesInName :: "string \<Rightarrow> Node list \<Rightarrow> Node list" where
  "candidatesInName query candidates = filter (nameMatches query) candidates"

definition propertyMatches :: "string \<Rightarrow> Node list \<Rightarrow> (Node \<times> string list) list" where
  "propertyMatches query candidates =
     filter (\<lambda>cw. length (snd cw) > 0)
       (map (\<lambda>c. (c, appearingWordsOf (queryWords query) c))
          (filter (\<lambda>c. \<not> list_ex (\<lambda>cin. n_id cin = n_id c) (candidatesInName query candidates)
                        \<and> truthy (n_properties c))
             candidates))"

definition propertyStage :: "string \<Rightarrow> Node list \<Rightarrow> (Node \<times> string list) list" where
  "propertyStage query candidates =
     sort_key (\<lambda>cw. - int (length (snd cw))) (propertyMatches query candidates)"

definition candidatesInProperties :: "string \<Rightarrow> Node list \<Rightarrow> Neighbor list" where
  "candidatesInProperties query candidates = map explain (propertyStage query candidates)"

definition candidatesWithQuery :: "string option \<Rightarrow> Node list \<Rightarrow> Neighbor list" where
  "candidatesWithQuery query candidates =
     (case query of
        None \<Rightarrow> map plainNeighbor candidates
      | Some q \<Rightarrow>
          if q = [] then map plainNeighbor candidates
          else map plainNeighbor (candidatesInName q candidates) @ candidatesInProperties q candidates)"

text \<open>The queries object the tool is built over, already applied to its store.\<close>

record Queries =
  q_getNodesByIds :: "int list \<Rightarrow> string list \<Rightarrow> error + Node list"
  q_getKHopNeighborIds :: "int list \<Rightarrow> string \<Rightarrow> nat \<Rightarrow> string option \<Rightarrow> error + string list"
  q_getEdgesBetweenNodes :: "int list \<Rightarrow> string \<Rightarrow> string \<Rightarrow> error + Edge list"

definition queries_pq :: "Files \<Rightarrow> Queries" where
  "queries_pq files =
     \<lparr>q_getNodesByIds = getNodesByIds_pq files,
      q_getKHopNeighborIds = getKHopNeighborIds_pq files,
      q_getEdgesBetweenNodes = getEdgesBetweenNodes_pq files\<rparr>"

definition queries_db :: "db \<Rightarrow> Queries" where
  "queries_db d =
     \<lparr>q_getNodesByIds = getNodesByIds_db d,
      q_getKHopNeighborIds = getKHopNeighborIds_db d,
      q_getEdgesBetweenNodes = getEdgesBetweenNodes_db d\<rparr>"

text \<open>The hop-1 step: each candidate with the types of the edges to and from it,
  in candidate order.\<close>

definition attachEdges :: "string \<Rightarrow> Edge list \<Rightarrow> Neighbor \<Rightarrow> Neighbor" where
  "attachEdges nodeId edges candidate =
     candidate\<lparr>edgesToCandidate := Some (map e_type (filter (\<lambda>e. e_from e = nodeId) edges)),
               edgesFromCandidate := Some (map e_type (filter (\<lambda>e. e_to e = nodeId) edges))\<rparr>"

fun withEdges :: "(string \<Rightarrow> string \<Rightarrow> error + Edge list) \<Rightarrow> string \<Rightarrow> Neighbor list \<Rightarrow>
    error + Neighbor list" where
  "withEdges getEdges nodeId [] = Inr []"
| "withEdges getEdges nodeId (candidate # rest) =
     (case getEdges nodeId (n_id (nb_node candidate)) of
        Inl err \<Rightarrow> Inl err
      | Inr edges \<Rightarrow>
          (case withEdges getEdges nodeId rest of
             Inl err \<Rightarrow> Inl err
           | Inr others \<Rightarrow>
               Inr (attachEdges nodeId edges candidate # others)))"

text \<open>The hop-2 step keeps the five node fields of each candidate and nothing else.\<close>

definition bareNeighbor :: "Neighbor \<Rightarrow> Neighbor" where
  "bareNeighbor c = plainNeighbor (nb_node c)"

record Response =
  mainNode :: Node
  neighbors :: "Neighbor list"

text \<open>The optional filter on the node type: \<^verbatim>\<open>if (nodeType) candidates =
  candidates.filter((c) => c.type === nodeType)\<close>.\<close>

definition typeFiltered :: "string option \<Rightarrow> Node list \<Rightarrow> Node list" where
  "typeFiltered nodeType fetched =
     (if truthy nodeType then filter (\<lambda>c. n_type c = nodeType) fetched else fetched)"

text \<open>The input schema admits \<^verbatim>\<open>"1"\<close>, \<^verbatim>\<open>"2"\<close> or nothing for \<^verbatim>\<open>k\<close>.\<close>

datatype kEnum = K1 | K2

fun hopsOf :: "kEnum option \<Rightarrow> nat" where
  "hopsOf None = 1"
| "hopsOf (Some K1) = 1"
| "hopsOf (Some K2) = 2"

text \<open>The end of \<^verbatim>\<open>execute\<close>: the response for the ranked candidates, with
  the edge types for one hop and with the bare node fields for two.\<close>

definition respond ::
  "Queries \<Rightarrow> int list \<Rightarrow> string \<Rightarrow> nat \<Rightarrow> Node \<Rightarrow> Neighbor list \<Rightarrow> error + Response" where
  "respond queries knowledgeGraphIds nodeId hops main ranked =
     (if hops = 1 then
        (case withEdges (q_getEdgesBetweenNodes queries knowledgeGraphIds) nodeId ranked of
           Inl err \<Rightarrow> Inl err
         | Inr candidatesWithEdges \<Rightarrow> Inr \<lparr>mainNode = main, neighbors = candidatesWithEdges\<rparr>)
      else Inr \<lparr>mainNode = main, neighbors = map bareNeighbor ranked\<rparr>)"

definition searchInSurroundings ::
  "Queries \<Rightarrow> int list \<Rightarrow> string \<Rightarrow> string option \<Rightarrow> string option \<Rightarrow> string option \<Rightarrow>
     kEnum option \<Rightarrow> error + Response" where
  "searchInSurroundings queries knowledgeGraphIds nodeId query nodeType edgeType k =
     (let hops = hopsOf k in
      if hops \<noteq> 1 \<and> hops \<noteq> 2 then Inl KMustBe1Or2
      else if hops = 2 \<and> truthy edgeType then Inl EdgeTypeFilterNotSupportedK2
      else (case q_getNodesByIds queries knowledgeGraphIds [nodeId] of
              Inl err \<Rightarrow> Inl err
            | Inr [] \<Rightarrow> Inl (NodeNotFound nodeId)
            | Inr (main # others) \<Rightarrow>
                (case q_getKHopNeighborIds queries knowledgeGraphIds nodeId hops edgeType of
                   Inl err \<Rightarrow> Inl err
                 | Inr neighborIds \<Rightarrow>
                     (case q_getNodesByIds queries knowledgeGraphIds neighborIds of
                        Inl err \<Rightarrow> Inl err
                      | Inr fetched \<Rightarrow>
                          respond queries knowledgeGraphIds nodeId hops main
                            (candidatesWithQuery query (typeFiltered nodeType fetched))))))"

text \<open>
  The tokenisation as the specification words it (not the code): every hyphen becomes
  a space, the text is lower-cased and split on whitespace, and the stop words go.
\<close>

definition isWhitespace :: "char \<Rightarrow> bool" where
  "isWhitespace c = (c = CHR '' '' \<or> c = CHR 0x09 \<or> c = CHR 0x0A \<or> c = CHR 0x0D)"

fun split_whitespace :: "string \<Rightarrow> string \<Rightarrow> string list" where
  "split_whitespace cur [] = (if cur = [] then [] else [cur])"
| "split_whitespace cur (c # cs) =
     (if isWhitespace c then (if cur = [] then [] else [cur]) @ split_whitespace [] cs
      else split_whitespace (cur @ [c]) cs)"

definition tokenize_spec :: "string \<Rightarrow> string list" where
  "tokenize_spec query =
     filter (\<lambda>w. w \<notin> set STOPWORDS)
       (split_whitespace []
          (toLowerCase (map (\<lambda>c. if c = CHR ''-'' then CHR '' '' else c) query)))"

section \<open>Loading the parquet files (GraphLoader)\<close>

text \<open>A data directory that has its \<^verbatim>\<open>graph.json\<close>, \<^verbatim>\<open>nodes.parquet\<close> and
  \<^verbatim>\<open>edges.parquet\<close>: the id of its metadata and the rows of the two files. The
  constructor skips every other entry.\<close>

record GraphDir =
  meta_id :: int
  dir_nodes :: "NodeRow list"
  dir_edges :: "EdgeRow list"

text \<open>\<^verbatim>\<open>Map.prototype.set\<close>: a present key keeps its place and takes the new value.\<close>

definition Map_set :: "'k \<Rightarrow> 'v \<Rightarrow> ('k \<times> 'v) list \<Rightarrow> ('k \<times> 'v) list" where
  "Map_set k v m =
     (if k \<in> fst ` set m then map (\<lambda>kv. if fst kv = k then (k, v) else kv) m else m @ [(k, v)])"

definition GraphLoader_files :: "GraphDir list \<Rightarrow> Files" where
  "GraphLoader_files dirs =
     fold (\<lambda>e files. Map_set (meta_id e)
                       \<lparr>knowledgeGraphId = meta_id e, nodesPath = dir_nodes e,
                        edgesPath = dir_edges e\<rparr> files)
          dirs []"

text \<open>Every entry of the map carries its own key as \<^verbatim>\<open>knowledgeGraphId\<close>.\<close>

definition keyedById :: "Files \<Rightarrow> bool" where
  "keyedById files = list_all (\<lambda>kf. knowledgeGraphId (snd kf) = fst kf) files"

section \<open>Notions used in the statements\<close>

text \<open>The engine's \<^verbatim>\<open>ILIKE '%text%'\<close> for a text without wildcard characters, used
  where an example needs a concrete operator.\<close>

definition ilike_contains :: "string option \<Rightarrow> string \<Rightarrow> bool" where
  "ilike_contains v text =
     (case v of None \<Rightarrow> False | Some s \<Rightarrow> sublist (toLowerCase text) (toLowerCase s))"

text \<open>The unordered pair of a leg's end nodes, and the pairs of a path leg by leg.\<close>

definition legPair :: "PathLeg \<Rightarrow> Node set" where
  "legPair l = {tailNode l, headNode l}"

definition pathPairs :: "Path \<Rightarrow> Node set list" where
  "pathPairs p = map legPair (legs p)"

text \<open>A path walked backwards: the legs in reverse order, each with its ends
  exchanged.\<close>

definition reverseLeg :: "PathLeg \<Rightarrow> PathLeg" where
  "reverseLeg l = \<lparr>tailNode = headNode l, l_edgeType = l_edgeType l, headNode = tailNode l\<rparr>"

definition reversePath :: "Path \<Rightarrow> Path" where
  "reversePath p = \<lparr>legs = rev (map reverseLeg (legs p))\<rparr>"

text \<open>A row of the join with its two edge types exchanged: the row the join of the
  opposite direction has for the same pair of edges.\<close>

definition swapTypes ::
  "string \<times> string option \<times> string option \<Rightarrow> string \<times> string option \<times> string option" where
  "swapTypes x = (fst x, snd (snd x), fst (snd x))"

text \<open>The ids at the ends of a list of edges.\<close>

definition edgeEnds :: "Edge list \<Rightarrow> string set" where
  "edgeEnds es = (\<Union>e \<in> set es. {e_from e, e_to e})"

text \<open>The nodes a response mentions.\<close>

definition responseNodes :: "Response \<Rightarrow> Node set" where
  "responseNodes r = insert (mainNode r) (nb_node ` set (neighbors r))"

definition pathNodes :: "Path \<Rightarrow> Node set" where
  "pathNodes p = (\<Union>l \<in> set (legs p). {tailNode l, headNode l})"

text \<open>The rows of the graphs \<open>g\<close> in the parquet files, graph by graph in the order of
  \<open>g\<close>: what \<^verbatim>\<open>nodesSource\<close> and \<^verbatim>\<open>edgesSource\<close> denote when every id is known.\<close>

definition rowsOf :: "(GraphFiles \<Rightarrow> 'a list) \<Rightarrow> Files \<Rightarrow> int list \<Rightarrow> 'a list" where
  "rowsOf sel files g = concat (map (\<lambda>i. case map_of files i of None \<Rightarrow> [] | Some f \<Rightarrow> sel f) g)"

text \<open>The records of a result: those of the returned list or response, and none
  when the call failed.\<close>

definition okList :: "error + 'a list \<Rightarrow> 'a list" where
  "okList r = (case r of Inl err \<Rightarrow> [] | Inr xs \<Rightarrow> xs)"

definition okPathNodes :: "error + Path list \<Rightarrow> Node set" where
  "okPathNodes r = (\<Union>p \<in> set (okList r). pathNodes p)"

definition okResponseNodes :: "error + Response \<Rightarrow> Node set" where
  "okResponseNodes r = (case r of Inl err \<Rightarrow> {} | Inr resp \<Rightarrow> responseNodes resp)"

section \<open>An example store\<close>

text \<open>
  The scenario of the specification: \<open>A\<close> (Metformin), \<open>B\<close> (Diabetes) and \<open>C\<close>
  (Enzyme X), with the edges \<open>A -treats-> B\<close> and \<open>B -involves-> C\<close>, and a self-loop
  \<open>C -binds-> C\<close>; once as the parquet files of graph 1, once as the tables of the
  relational store.
\<close>

definition exNodeRows :: "NodeRow list" where
  "exNodeRows =
     [\<lparr>r_id = ''A'', r_name = Some ''Metformin'', r_type = Some ''drug'',
        r_properties = Some ''oral drug''\<rparr>,
      \<lparr>r_id = ''B'', r_name = Some ''Diabetes'', r_type = Some ''disease'',
        r_properties = Some ''treats metformin response''\<rparr>,
      \<lparr>r_id = ''C'', r_name = Some ''Enzyme X'', r_type = Some ''gene'',
        r_properties = Some ''X-Ray Beam''\<rparr>]"

definition exEdgeRows :: "EdgeRow list" where
  "exEdgeRows =
     [\<lparr>r_from = ''A'', r_to = ''B'', r_etype = Some ''treats'', r_eproperties = None\<rparr>,
      \<lparr>r_from = ''B'', r_to = ''C'', r_etype = Some ''involves'', r_eproperties = None\<rparr>,
      \<lparr>r_from = ''C'', r_to = ''C'', r_etype = Some ''binds'', r_eproperties = None\<rparr>]"

definition exGraph :: GraphFiles where
  "exGraph = \<lparr>knowledgeGraphId = 1, nodesPath = exNodeRows, edgesPath = exEdgeRows\<rparr>"

definition exFiles :: Files where
  "exFiles = [(1, exGraph)]"

definition exDb :: db where
  "exDb = \<lparr>nodeTable = selectNodes exGraph, edgeTable = selectEdges exGraph\<rparr>"

text \<open>The nodes of the example as the store returns them.\<close>

definition exNodeA :: Node where
  "exNodeA = \<lparr>n_knowledgeGraphId = 1, n_id = ''A'', n_name = Some ''Metformin'',
              n_type = Some ''drug'', n_properties = Some ''oral drug''\<rparr>"

definition exNodeB :: Node where
  "exNodeB = \<lparr>n_knowledgeGraphId = 1, n_id = ''B'', n_name = Some ''Diabetes'',
              n_type = Some ''disease'', n_properties = Some ''treats metformin response''\<rparr>"

definition exNodeC :: Node where
  "exNodeC = \<lparr>n_knowledgeGraphId = 1, n_id = ''C'', n_name = Some ''Enzyme X'',
              n_type = Some ''gene'', n_properties = Some ''X-Ray Beam''\<rparr>"

text \<open>The one-hop surroundings of \<open>B\<close> for the query \<open>x-ray drug\<close>: both neighbours
  are property matches, \<open>C\<close> with two words and \<open>A\<close> with one, so that the ranking puts
  \<open>C\<close> before \<open>A\<close>, against the fetch order.\<close>

definition exRanked :: Response where
  "exRanked =
     \<lparr>mainNode = exNodeB,
      neighbors =
        [\<lparr>nb_node = exNodeC, relevance = Some 2, appearingWords = Some [''x'', ''ray''],
           matchExplanation = Some ''2 matches: x, ray'',
           edgesToCandidate = Some [Some ''involves''], edgesFromCandidate = Some []\<rparr>,
         \<lparr>nb_node = exNodeA, relevance = Some 1, appearingWords = Some [''drug''],
           matchExplanation = Some ''1 match: drug'',
           edgesToCandidate = Some [], edgesFromCandidate = Some [Some ''treats'']\<rparr>]\<rparr>"

text \<open>The files of the example with one more edge, \<open>B -causes-> Z\<close>, whose end \<open>Z\<close>
  has no node row.\<close>

definition exGraphZ :: GraphFiles where
  "exGraphZ =
     \<lparr>knowledgeGraphId = 1, nodesPath = exNodeRows,
      edgesPath = exEdgeRows @
        [\<lparr>r_from = ''B'', r_to = ''Z'', r_etype = Some ''causes'', r_eproperties = None\<rparr>]\<rparr>"

definition exFilesZ :: Files where
  "exFilesZ = [(1, exGraphZ)]"

text \<open>The one-hop surroundings of \<open>B\<close> for the query \<open>r\<close>: \<open>A\<close> is a name match
  (Metformin) and \<open>C\<close> a property match.\<close>

definition exRankedR :: Response where
  "exRankedR =
     \<lparr>mainNode = exNodeB,
      neighbors =
        [\<lparr>nb_node = exNodeA, relevance = None, appearingWords = None, matchExplanation = None,
           edgesToCandidate = Some [], edgesFromCandidate = Some [Some ''treats'']\<rparr>,
         \<lparr>nb_node = exNodeC, relevance = Some 1, appearingWords = Some [''r''],
           matchExplanation = Some ''1 match: r'',
           edgesToCandidate = Some [Some ''involves''], edgesFromCandidate = Some []\<rparr>]\<rparr>"

text \<open>The only path of the example from \<open>A\<close> to \<open>C\<close>.\<close>

definition exPath :: Path where
  "exPath =
     \<lparr>legs = [\<lparr>tailNode = exNodeA, l_edgeType = ''treats'', headNode = exNodeB\<rparr>,
              \<lparr>tailNode = exNodeB, l_edgeType = ''involves'', headNode = exNodeC\<rparr>]\<rparr>"

section \<open>Two-hop expansion with an edge-type filter\<close>

lemma getKHopNeighborIds_filtered:
  "truthy edgeType \<Longrightarrow> getKHopNeighborIds getN nodeId 2 edgeType = Inr []"
  by (simp add: getKHopNeighborIds_def)

text \<open>
  C1, as stated, fails: on the example store the two-hop expansion with the edge-type
  filter \<open>x\<close> returns the empty list; it does not fail.
\<close>

theorem C1_two_hop_filter_returns_empty:
  "getKHopNeighborIds_db exDb [1] ''A'' 2 (Some ''x'') = Inr []"
  by (simp add: getKHopNeighborIds_db_def getKHopNeighborIds_filtered)

text \<open>
  C1, amended: for a non-empty edge-type filter, \<^verbatim>\<open>getKHopNeighborIds\<close> with
  \<open>k = 2\<close> returns the empty list in both stores, whatever the store holds, and it is
  the surroundings search that rejects the request, with the error "Filtering by edge
  type is not supported when k=2", before it reads the store.
\<close>

theorem C1_two_hop_filter:
  assumes "truthy edgeType"
  shows "getKHopNeighborIds_db d knowledgeGraphIds nodeId 2 edgeType = Inr []
       \<and> getKHopNeighborIds_pq files knowledgeGraphIds nodeId 2 edgeType = Inr []
       \<and> searchInSurroundings queries knowledgeGraphIds nodeId query nodeType edgeType (Some K2)
           = Inl EdgeTypeFilterNotSupportedK2"
  using assms
  by (simp add: getKHopNeighborIds_db_def getKHopNeighborIds_pq_def getKHopNeighborIds_filtered
      searchInSurroundings_def)

theorem C1_two_hop_filter_witness:
  "truthy (Some ''treats'')
   \<and> getKHopNeighborIds_db exDb [1] ''A'' 2 (Some ''treats'') = Inr []
   \<and> getKHopNeighborIds_pq exFiles [1] ''A'' 2 (Some ''treats'') = Inr []
   \<and> searchInSurroundings (queries_pq exFiles) [1] ''A'' None None (Some ''treats'') (Some K2)
       = Inl EdgeTypeFilterNotSupportedK2"
proof -
  have t: "truthy (Some ''treats'')" by simp
  show ?thesis
    using t C1_two_hop_filter [OF t, of exDb "[1]" "''A''" exFiles "queries_pq exFiles" None None]
    by simp
qed

section \<open>Sets in insertion order\<close>

lemma set_set_add: "set (set_add x s) = insert x (set s)"
  by (auto simp: set_add_def)

lemma distinct_set_add: "distinct s \<Longrightarrow> distinct (set_add x s)"
  by (simp add: set_add_def)

lemma set_fold_set_add: "set (fold set_add xs acc) = set xs \<union> set acc"
  by (induction xs arbitrary: acc) (auto simp: set_set_add)

lemma distinct_fold_set_add: "distinct acc \<Longrightarrow> distinct (fold set_add xs acc)"
  by (induction xs arbitrary: acc) (auto simp: distinct_set_add)

lemma set_new_Set: "set (new_Set xs) = set xs"
  by (simp add: new_Set_def set_fold_set_add)

lemma distinct_new_Set: "distinct (new_Set xs)"
  by (simp add: new_Set_def distinct_fold_set_add)

lemma set_addTwoHop:
  "set (addTwoHop n one nn acc) = set acc \<union> {t \<in> set nn. t \<noteq> n \<and> t \<notin> set one}"
  unfolding addTwoHop_def
  by (induction nn arbitrary: acc) (auto simp: set_set_add)

lemma distinct_addTwoHop: "distinct acc \<Longrightarrow> distinct (addTwoHop n one nn acc)"
  unfolding addTwoHop_def
  by (induction nn arbitrary: acc) (auto simp: distinct_set_add)

lemma twoHopLoop_set:
  "twoHopLoop getN n one rest acc = Inr two \<Longrightarrow>
   set two = set acc \<union> {t. t \<noteq> n \<and> t \<notin> set one \<and> (\<exists>m \<in> set rest. \<exists>ns. getN m = Inr ns \<and> t \<in> set ns)}"
proof (induction rest arbitrary: acc)
  case Nil
  then show ?case by auto
next
  case (Cons m rest)
  then obtain ns where ns: "getN m = Inr ns"
    and rec: "twoHopLoop getN n one rest (addTwoHop n one ns acc) = Inr two"
    by (auto split: sum.splits)
  from Cons.IH [OF rec] ns show ?case
    by (auto simp: set_addTwoHop)
qed

lemma twoHopLoop_distinct:
  "twoHopLoop getN n one rest acc = Inr two \<Longrightarrow> distinct acc \<Longrightarrow> distinct two"
proof (induction rest arbitrary: acc)
  case Nil
  then show ?case by simp
next
  case (Cons m rest)
  then show ?case
    by (auto split: sum.splits intro: distinct_addTwoHop)
qed

lemma twoHopLoop_total:
  "\<forall>m \<in> set rest. \<exists>ns. getN m = Inr ns \<Longrightarrow> \<exists>two. twoHopLoop getN n one rest acc = Inr two"
  by (induction rest arbitrary: acc) auto

section \<open>The two-hop neighbour set\<close>

lemma getKHop_two:
  assumes one: "getN n None = Inr N1"
    and tot: "\<And>m. \<exists>ns. getN m None = Inr ns"
  shows "\<exists>N2. getKHopNeighborIds getN n 2 None = Inr (N1 @ N2)
           \<and> distinct N2 \<and> n \<notin> set N2 \<and> set N1 \<inter> set N2 = {}
           \<and> set N2 = {t. t \<noteq> n \<and> t \<notin> set N1 \<and> (\<exists>m \<in> set N1. \<exists>ns. getN m None = Inr ns \<and> t \<in> set ns)}"
proof -
  from tot have "\<forall>m \<in> set N1. \<exists>ns. (\<lambda>m. getN m None) m = Inr ns" by simp
  from twoHopLoop_total [OF this]
  obtain N2 where l: "twoHopLoop (\<lambda>m. getN m None) n N1 N1 [] = Inr N2" by blast
  have s: "set N2 = {t. t \<noteq> n \<and> t \<notin> set N1 \<and> (\<exists>m \<in> set N1. \<exists>ns. getN m None = Inr ns \<and> t \<in> set ns)}"
    using twoHopLoop_set [OF l] by simp
  have d: "distinct N2" using twoHopLoop_distinct [OF l] by simp
  have r: "getKHopNeighborIds getN n 2 None = Inr (N1 @ N2)"
    by (simp add: getKHopNeighborIds_def one l)
  from s have "n \<notin> set N2" "set N1 \<inter> set N2 = {}" by auto
  with r d s show ?thesis by blast
qed

lemma getNeighbors_db_total: "\<exists>ns. getNeighbors_db d g m et = Inr ns"
  by (simp add: getNeighbors_db_def Let_def)

lemma getNeighbors_pq_total:
  "getNeighbors_pq files g n et = Inr N1 \<Longrightarrow> \<exists>ns. getNeighbors_pq files g m et' = Inr ns"
  by (auto simp: getNeighbors_pq_def split: sum.splits)

lemma getNeighbors_db_distinct: "getNeighbors_db d g m et = Inr ns \<Longrightarrow> distinct ns"
  by (auto simp: getNeighbors_db_def Let_def distinct_new_Set)

lemma getNeighbors_pq_distinct: "getNeighbors_pq files g m et = Inr ns \<Longrightarrow> distinct ns"
  by (auto simp: getNeighbors_pq_def distinct_new_Set split: sum.splits)

text \<open>
  C3: without an edge-type filter, where the one-hop expansion of \<open>n\<close> returns \<open>N1\<close>,
  the two-hop expansion returns \<open>N1\<close> followed by a list \<open>N2\<close>, so that every id of
  \<open>N1\<close> is in the result and precedes every id of \<open>N2\<close>; \<open>N1\<close> and \<open>N2\<close> have no
  duplicates, \<open>N2\<close> contains neither \<open>n\<close> nor an id of \<open>N1\<close>, and \<open>N2\<close> holds exactly
  the neighbours of the members of \<open>N1\<close> that are neither \<open>n\<close> nor in \<open>N1\<close>. This
  holds in the relational and in the columnar store.
\<close>

theorem C3_two_hop:
  "(getKHopNeighborIds_db d g n 1 None = Inr N1 \<longrightarrow>
      (\<exists>N2. getKHopNeighborIds_db d g n 2 None = Inr (N1 @ N2)
           \<and> distinct N1 \<and> distinct N2 \<and> n \<notin> set N2 \<and> set N1 \<inter> set N2 = {}
           \<and> set N2 = {t. t \<noteq> n \<and> t \<notin> set N1 \<and>
                 (\<exists>m \<in> set N1. \<exists>ns. getNeighbors_db d g m None = Inr ns \<and> t \<in> set ns)}))
   \<and> (getKHopNeighborIds_pq files g n 1 None = Inr N1 \<longrightarrow>
      (\<exists>N2. getKHopNeighborIds_pq files g n 2 None = Inr (N1 @ N2)
           \<and> distinct N1 \<and> distinct N2 \<and> n \<notin> set N2 \<and> set N1 \<inter> set N2 = {}
           \<and> set N2 = {t. t \<noteq> n \<and> t \<notin> set N1 \<and>
                 (\<exists>m \<in> set N1. \<exists>ns. getNeighbors_pq files g m None = Inr ns \<and> t \<in> set ns)}))"
proof (intro conjI impI)
  assume "getKHopNeighborIds_db d g n 1 None = Inr N1"
  then have one: "getNeighbors_db d g n None = Inr N1"
    by (simp add: getKHopNeighborIds_db_def getKHopNeighborIds_def)
  have "distinct N1" by (rule getNeighbors_db_distinct [OF one])
  then show "\<exists>N2. getKHopNeighborIds_db d g n 2 None = Inr (N1 @ N2)
           \<and> distinct N1 \<and> distinct N2 \<and> n \<notin> set N2 \<and> set N1 \<inter> set N2 = {}
           \<and> set N2 = {t. t \<noteq> n \<and> t \<notin> set N1 \<and>
                 (\<exists>m \<in> set N1. \<exists>ns. getNeighbors_db d g m None = Inr ns \<and> t \<in> set ns)}"
    unfolding getKHopNeighborIds_db_def
    using getKHop_two [of "getNeighbors_db d g" n N1, OF one getNeighbors_db_total] by simp
next
  assume "getKHopNeighborIds_pq files g n 1 None = Inr N1"
  then have one: "getNeighbors_pq files g n None = Inr N1"
    by (simp add: getKHopNeighborIds_pq_def getKHopNeighborIds_def)
  have "distinct N1" by (rule getNeighbors_pq_distinct [OF one])
  then show "\<exists>N2. getKHopNeighborIds_pq files g n 2 None = Inr (N1 @ N2)
           \<and> distinct N1 \<and> distinct N2 \<and> n \<notin> set N2 \<and> set N1 \<inter> set N2 = {}
           \<and> set N2 = {t. t \<noteq> n \<and> t \<notin> set N1 \<and>
                 (\<exists>m \<in> set N1. \<exists>ns. getNeighbors_pq files g m None = Inr ns \<and> t \<in> set ns)}"
    unfolding getKHopNeighborIds_pq_def
    using getKHop_two [of "getNeighbors_pq files g" n N1, OF one getNeighbors_pq_total [OF one]]
    by simp
qed

theorem C3_two_hop_witness:
  "getKHopNeighborIds_db exDb [1] ''A'' 1 None = Inr [''B'']
   \<and> getKHopNeighborIds_pq exFiles [1] ''A'' 1 None = Inr [''B'']
   \<and> (\<exists>N2. getKHopNeighborIds_db exDb [1] ''A'' 2 None = Inr ([''B''] @ N2)
           \<and> distinct N2 \<and> ''A'' \<notin> set N2 \<and> set [''B''] \<inter> set N2 = {})
   \<and> (\<exists>N2. getKHopNeighborIds_pq exFiles [1] ''A'' 2 None = Inr ([''B''] @ N2)
           \<and> distinct N2 \<and> ''A'' \<notin> set N2 \<and> set [''B''] \<inter> set N2 = {})"
proof -
  have h1: "getKHopNeighborIds_db exDb [1] ''A'' 1 None = Inr [''B'']" by code_simp
  have h2: "getKHopNeighborIds_pq exFiles [1] ''A'' 1 None = Inr [''B'']" by code_simp
  note t = C3_two_hop [of exDb "[1]" "''A''" "[''B'']" exFiles]
  from conjunct1 [OF t] h1
  obtain N2 where a: "getKHopNeighborIds_db exDb [1] ''A'' 2 None = Inr ([''B''] @ N2)"
    "distinct N2" "''A'' \<notin> set N2" "set [''B''] \<inter> set N2 = {}"
    by (elim impE exE conjE)
  from conjunct2 [OF t] h2
  obtain N2' where b: "getKHopNeighborIds_pq exFiles [1] ''A'' 2 None = Inr ([''B''] @ N2')"
    "distinct N2'" "''A'' \<notin> set N2'" "set [''B''] \<inter> set N2' = {}"
    by (elim impE exE conjE)
  from a have a': "\<exists>N2. getKHopNeighborIds_db exDb [1] ''A'' 2 None = Inr ([''B''] @ N2)
           \<and> distinct N2 \<and> ''A'' \<notin> set N2 \<and> set [''B''] \<inter> set N2 = {}"
    by (intro exI [of _ N2] conjI)
  from b have b': "\<exists>N2. getKHopNeighborIds_pq exFiles [1] ''A'' 2 None = Inr ([''B''] @ N2)
           \<and> distinct N2 \<and> ''A'' \<notin> set N2 \<and> set [''B''] \<inter> set N2 = {}"
    by (intro exI [of _ N2'] conjI)
  from h1 h2 a' b' show ?thesis by (intro conjI)
qed

section \<open>The row sources of the columnar store\<close>

lemma sourceParts_Inr:
  "sourceParts sel files g = Inr parts \<Longrightarrow>
     (\<forall>i \<in> set g. map_of files i \<noteq> None) \<and> concat parts = rowsOf sel files g \<and> (parts = [] \<longleftrightarrow> g = [])"
  by (induction g arbitrary: parts) (auto simp: rowsOf_def split: option.splits sum.splits)

lemma sourceParts_known:
  "\<forall>i \<in> set g. map_of files i \<noteq> None \<Longrightarrow> \<exists>parts. sourceParts sel files g = Inr parts"
  by (induction g) (auto split: option.splits sum.splits)

lemma sourceParts_unknown:
  "i \<in> set g \<Longrightarrow> map_of files i = None \<Longrightarrow>
     \<exists>j \<in> set g. map_of files j = None \<and> sourceParts sel files g = Inl (UnknownGraphId j)"
  by (induction g) (auto split: option.splits sum.splits)

lemma sourceParts_Inl:
  "sourceParts sel files g = Inl err \<Longrightarrow> \<exists>j \<in> set g. map_of files j = None \<and> err = UnknownGraphId j"
  by (induction g) (auto split: option.splits sum.splits)

lemma rowSource_Inr:
  assumes "rowSource sel files g = Inr rows"
  shows "g \<noteq> [] \<and> (\<forall>i \<in> set g. map_of files i \<noteq> None) \<and> rows = rowsOf sel files g"
proof (cases "length g = 1")
  case True
  then obtain i where g: "g = [i]" by (cases g) auto
  with assms show ?thesis
    by (auto simp: rowSource_def rowsOf_def split: option.splits)
next
  case False
  with assms obtain parts where p: "sourceParts sel files g = Inr parts" and ne: "parts \<noteq> []"
    and r: "rows = concat parts"
    by (auto simp: rowSource_def split: sum.splits if_splits)
  from sourceParts_Inr [OF p] ne r show ?thesis by auto
qed

lemma rowSource_known:
  assumes "g \<noteq> []" and "\<forall>i \<in> set g. map_of files i \<noteq> None"
  shows "rowSource sel files g = Inr (rowsOf sel files g)"
proof (cases "length g = 1")
  case True
  then obtain i where g: "g = [i]" by (cases g) auto
  with assms show ?thesis
    by (auto simp: rowSource_def rowsOf_def split: option.splits)
next
  case False
  from sourceParts_known [OF assms(2)] obtain parts where p: "sourceParts sel files g = Inr parts"
    by blast
  from sourceParts_Inr [OF p] assms(1) False p show ?thesis
    by (auto simp: rowSource_def)
qed

lemma rowSource_unknown:
  assumes "i \<in> set g" and "map_of files i = None"
  shows "\<exists>j \<in> set g. map_of files j = None \<and> rowSource sel files g = Inl (UnknownGraphId j)"
proof (cases "length g = 1")
  case True
  then obtain k where g: "g = [k]" by (cases g) auto
  with assms show ?thesis
    by (auto simp: rowSource_def)
next
  case False
  from sourceParts_unknown [OF assms, of sel]
  obtain j where "j \<in> set g" "map_of files j = None" "sourceParts sel files g = Inl (UnknownGraphId j)"
    by blast
  with False show ?thesis
    by (auto simp: rowSource_def)
qed

lemma rowSource_empty: "rowSource sel files [] = Inl SqlSyntaxError"
  by (simp add: rowSource_def)

lemma set_rowsOf:
  "set (rowsOf sel files g) = {x. \<exists>i \<in> set g. \<exists>f. map_of files i = Some f \<and> x \<in> set (sel f)}"
  by (auto simp: rowsOf_def split: option.splits) metis

section \<open>One-hop neighbours\<close>

lemma neighborOf_self: "fr = n \<or> t = n \<Longrightarrow> neighborOf n fr t = n \<longleftrightarrow> fr = n \<and> t = n"
  by (auto simp: neighborOf_def)

lemma getNeighbors_db_set:
  "getNeighbors_db d g n et = Inr ns \<Longrightarrow>
   set ns = {neighborOf n (e_from e) (e_to e) | e.
              e \<in> set (edgeTable d) \<and> e_knowledgeGraphId e \<in> set g \<and>
              (e_from e = n \<or> e_to e = n) \<and> typeFilter et e}"
  by (auto simp: getNeighbors_db_def Let_def set_new_Set image_iff)

lemma getNeighbors_pq_set:
  "getNeighbors_pq files g n et = Inr ns \<Longrightarrow>
   set ns = {neighborOf n (e_from e) (e_to e) | e.
              e \<in> set (rowsOf selectEdges files g) \<and> (e_from e = n \<or> e_to e = n) \<and> typeFilter et e}"
  by (auto simp: getNeighbors_pq_def edgesSource_def set_new_Set dest!: rowSource_Inr split: sum.splits)

lemma self_in_neighbors:
  assumes "set ns = {neighborOf n (e_from e) (e_to e) | e. e \<in> E \<and> (e_from e = n \<or> e_to e = n) \<and> P e}"
  shows "n \<in> set ns \<longleftrightarrow> (\<exists>e \<in> E. e_from e = n \<and> e_to e = n \<and> P e)"
proof
  assume "n \<in> set ns"
  then obtain e where "e \<in> E" "e_from e = n \<or> e_to e = n" "P e" "n = neighborOf n (e_from e) (e_to e)"
    unfolding assms by blast
  then show "\<exists>e \<in> E. e_from e = n \<and> e_to e = n \<and> P e"
    by (auto simp: neighborOf_def split: if_splits)
next
  assume "\<exists>e \<in> E. e_from e = n \<and> e_to e = n \<and> P e"
  then obtain e where "e \<in> E" "e_from e = n" "e_to e = n" "P e" by blast
  then have "e \<in> E \<and> (e_from e = n \<or> e_to e = n) \<and> P e \<and> n = neighborOf n (e_from e) (e_to e)"
    by (simp add: neighborOf_def)
  then show "n \<in> set ns" unfolding assms by blast
qed

text \<open>
  C5: the one-hop neighbour list of \<open>n\<close> (no edge-type filter) contains \<open>n\<close> itself
  if and only if the store has an edge from \<open>n\<close> to \<open>n\<close> in one of the graphs \<open>g\<close>;
  in the relational store among the edge rows whose graph id is in \<open>g\<close>, in the
  columnar store among the edge rows of the files of \<open>g\<close>.
\<close>

theorem C5_self_loop:
  "(getNeighbors_db d g n None = Inr ns \<longrightarrow>
      (n \<in> set ns \<longleftrightarrow>
         (\<exists>e \<in> set (edgeTable d). e_knowledgeGraphId e \<in> set g \<and> e_from e = n \<and> e_to e = n)))
   \<and> (getNeighbors_pq files g n None = Inr ns' \<longrightarrow>
      (n \<in> set ns' \<longleftrightarrow>
         (\<exists>e \<in> set (rowsOf selectEdges files g). e_from e = n \<and> e_to e = n)))"
proof (intro conjI impI)
  assume a: "getNeighbors_db d g n None = Inr ns"
  have "set ns = {neighborOf n (e_from e) (e_to e) | e.
          e \<in> {e \<in> set (edgeTable d). e_knowledgeGraphId e \<in> set g} \<and>
          (e_from e = n \<or> e_to e = n) \<and> typeFilter None e}"
    using getNeighbors_db_set [OF a] by auto
  from self_in_neighbors [OF this]
  show "n \<in> set ns \<longleftrightarrow>
         (\<exists>e \<in> set (edgeTable d). e_knowledgeGraphId e \<in> set g \<and> e_from e = n \<and> e_to e = n)"
    by (auto simp: typeFilter_def)
next
  assume a: "getNeighbors_pq files g n None = Inr ns'"
  from self_in_neighbors [OF getNeighbors_pq_set [OF a]]
  show "n \<in> set ns' \<longleftrightarrow>
         (\<exists>e \<in> set (rowsOf selectEdges files g). e_from e = n \<and> e_to e = n)"
    by (auto simp: typeFilter_def)
qed

theorem C5_self_loop_witness:
  "getNeighbors_db exDb [1] ''C'' None = Inr [''B'', ''C'']
   \<and> getNeighbors_pq exFiles [1] ''A'' None = Inr [''B'']
   \<and> (''C'' \<in> set [''B'', ''C''] \<longleftrightarrow>
        (\<exists>e \<in> set (edgeTable exDb). e_knowledgeGraphId e \<in> set [1] \<and> e_from e = ''C'' \<and> e_to e = ''C''))
   \<and> (''A'' \<in> set [''B''] \<longleftrightarrow>
        (\<exists>e \<in> set (rowsOf selectEdges exFiles [1]). e_from e = ''A'' \<and> e_to e = ''A''))"
proof -
  have h1: "getNeighbors_db exDb [1] ''C'' None = Inr [''B'', ''C'']" by code_simp
  have h2: "getNeighbors_pq exFiles [1] ''A'' None = Inr [''B'']" by code_simp
  note t = C5_self_loop [of exDb "[1]" "''C''" "[''B'', ''C'']"]
  note u = C5_self_loop [of exDb "[1]" "''A''" "[]" exFiles "[''B'']"]
  from conjunct1 [OF t, THEN mp, OF h1] conjunct2 [OF u, THEN mp, OF h2] h1 h2
  show ?thesis by (intro conjI)
qed

section \<open>Unknown graph ids\<close>

lemma getNeighbors_pq_unknown:
  "i \<in> set g \<Longrightarrow> map_of files i = None \<Longrightarrow>
   \<exists>j \<in> set g. map_of files j = None \<and> getNeighbors_pq files g n et = Inl (UnknownGraphId j)"
  using rowSource_unknown [of i g files selectEdges]
  by (auto simp: getNeighbors_pq_def edgesSource_def)

lemma getEdgesBetweenNodes_pq_unknown:
  "i \<in> set g \<Longrightarrow> map_of files i = None \<Longrightarrow>
   \<exists>j \<in> set g. map_of files j = None \<and> getEdgesBetweenNodes_pq files g a b = Inl (UnknownGraphId j)"
  using rowSource_unknown [of i g files selectEdges]
  by (auto simp: getEdgesBetweenNodes_pq_def edgesSource_def)

lemma getNodesByIds_pq_unknown:
  "i \<in> set g \<Longrightarrow> map_of files i = None \<Longrightarrow> ids \<noteq> [] \<Longrightarrow>
   \<exists>j \<in> set g. map_of files j = None \<and> getNodesByIds_pq files g ids = Inl (UnknownGraphId j)"
  using rowSource_unknown [of i g files selectNodes]
  by (auto simp: getNodesByIds_pq_def nodesSource_def)

lemma findPaths_pq_unknown:
  "i \<in> set g \<Longrightarrow> map_of files i = None \<Longrightarrow>
   \<exists>j \<in> set g. map_of files j = None \<and> findPaths_pq files g a b = Inl (UnknownGraphId j)"
  using rowSource_unknown [of i g files selectEdges]
  by (auto simp: findPaths_pq_def edgesSource_def)

lemma searchNodesByName_pq_unknown:
  "i \<in> set g \<Longrightarrow> map_of files i = None \<Longrightarrow>
   \<exists>j \<in> set g. map_of files j = None \<and>
      searchNodesByName_pq ilike files name (Some g) limit = Inl (UnknownGraphId j)"
  using rowSource_unknown [of i g files selectNodes]
  by (auto simp: searchNodesByName_pq_def nodesSource_def)

lemma getKHopNeighborIds_pq_unknown:
  assumes "i \<in> set g" and "map_of files i = None" and "k = 1 \<or> \<not> truthy et"
  shows "\<exists>j \<in> set g. map_of files j = None \<and>
      getKHopNeighborIds_pq files g n k et = Inl (UnknownGraphId j)"
proof -
  from getNeighbors_pq_unknown [OF assms(1,2)]
  obtain j where j: "j \<in> set g" "map_of files j = None"
    "getNeighbors_pq files g n et = Inl (UnknownGraphId j)" by blast
  from getNeighbors_pq_unknown [OF assms(1,2)]
  obtain j' where j': "j' \<in> set g" "map_of files j' = None"
    "getNeighbors_pq files g n None = Inl (UnknownGraphId j')" by blast
  show ?thesis
  proof (cases "k = 1")
    case True
    with j show ?thesis
      by (auto simp: getKHopNeighborIds_pq_def getKHopNeighborIds_def)
  next
    case False
    with assms(3) j' show ?thesis
      by (auto simp: getKHopNeighborIds_pq_def getKHopNeighborIds_def)
  qed
qed

lemma searchInSurroundings_pq_unknown:
  assumes "i \<in> set g" and "map_of files i = None" and "hopsOf k = 1 \<or> \<not> truthy et"
  shows "\<exists>j \<in> set g. map_of files j = None \<and>
      searchInSurroundings (queries_pq files) g n query nodeType et k = Inl (UnknownGraphId j)"
proof -
  from getNodesByIds_pq_unknown [OF assms(1,2), of "[n]"]
  obtain j where j: "j \<in> set g" "map_of files j = None"
    "getNodesByIds_pq files g [n] = Inl (UnknownGraphId j)" by auto
  have h: "hopsOf k = 1 \<or> hopsOf k = 2" by (cases k rule: hopsOf.cases) auto
  with assms(3) j show ?thesis
    by (auto simp: searchInSurroundings_def queries_pq_def Let_def)
qed

text \<open>
  C6, as stated, fails: graph 7 is not in the files and no row of the tables carries
  it, and yet the batched node lookup of the columnar store with no ids, and the
  neighbour query of the relational store, return the empty list.
\<close>

theorem C6_unknown_graph_returns_empty:
  "map_of exFiles 7 = None
   \<and> 7 \<notin> n_knowledgeGraphId ` set (nodeTable exDb)
   \<and> 7 \<notin> e_knowledgeGraphId ` set (edgeTable exDb)
   \<and> getNodesByIds_pq exFiles [7] [] = Inr []
   \<and> getNeighbors_db exDb [7] ''A'' None = Inr []"
  by code_simp

text \<open>
  C6, amended: in the columnar store, when the list of graph ids contains an id that
  is not in the files, every call that reads the store fails with "Unknown graph id"
  for such an id: the neighbour, edge and path queries, the name search, the node
  lookup with at least one id, the k-hop expansion for \<open>k = 1\<close> or without an edge
  type, and the surroundings search that passes its argument checks. The two calls that
  return before they read the store give the empty list: the node lookup with no ids
  and the two-hop expansion with an edge type. The relational store has no such check:
  its neighbour query returns a list for every list of graph ids.
\<close>

theorem C6_unknown_graph:
  assumes "i \<in> set g" and "map_of files i = None"
  shows "(\<exists>j \<in> set g. map_of files j = None \<and>
            getNeighbors_pq files g n et = Inl (UnknownGraphId j))
       \<and> (\<exists>j \<in> set g. map_of files j = None \<and>
            getEdgesBetweenNodes_pq files g a b = Inl (UnknownGraphId j))
       \<and> (\<exists>j \<in> set g. map_of files j = None \<and>
            findPaths_pq files g a b = Inl (UnknownGraphId j))
       \<and> (ids \<noteq> [] \<longrightarrow> (\<exists>j \<in> set g. map_of files j = None \<and>
            getNodesByIds_pq files g ids = Inl (UnknownGraphId j)))
       \<and> (\<exists>j \<in> set g. map_of files j = None \<and>
            searchNodesByName_pq ilike files name (Some g) limit = Inl (UnknownGraphId j))
       \<and> (k = 1 \<or> \<not> truthy et \<longrightarrow> (\<exists>j \<in> set g. map_of files j = None \<and>
            getKHopNeighborIds_pq files g n k et = Inl (UnknownGraphId j)))
       \<and> (hopsOf kk = 1 \<or> \<not> truthy et \<longrightarrow> (\<exists>j \<in> set g. map_of files j = None \<and>
            searchInSurroundings (queries_pq files) g n query nodeType et kk = Inl (UnknownGraphId j)))
       \<and> getNodesByIds_pq files g [] = Inr []
       \<and> (truthy et \<longrightarrow> getKHopNeighborIds_pq files g n 2 et = Inr [])
       \<and> (\<exists>ns. getNeighbors_db d g n et = Inr ns)"
  using getNeighbors_pq_unknown [OF assms] getEdgesBetweenNodes_pq_unknown [OF assms]
    findPaths_pq_unknown [OF assms] getNodesByIds_pq_unknown [OF assms]
    searchNodesByName_pq_unknown [OF assms] getKHopNeighborIds_pq_unknown [OF assms]
    searchInSurroundings_pq_unknown [OF assms] getNeighbors_db_total
  by (simp add: getNodesByIds_pq_def getKHopNeighborIds_pq_def getKHopNeighborIds_filtered)

theorem C6_unknown_graph_witness:
  "7 \<in> set [1, 7::int] \<and> map_of exFiles 7 = None
   \<and> getNeighbors_pq exFiles [1, 7] ''A'' None = Inl (UnknownGraphId 7)
   \<and> (\<exists>j \<in> set [1, 7]. map_of exFiles j = None \<and>
         findPaths_pq exFiles [1, 7] ''A'' ''C'' = Inl (UnknownGraphId j))"
proof -
  have h1: "7 \<in> set [1, 7::int]" by simp
  have h2: "map_of exFiles 7 = None" by code_simp
  have h3: "getNeighbors_pq exFiles [1, 7] ''A'' None = Inl (UnknownGraphId 7)" by code_simp
  note t = C6_unknown_graph [OF h1 h2, of "''A''" None "''A''" "''C''"]
  from h1 h2 h3 conjunct1 [OF conjunct2 [OF conjunct2 [OF t]]]
  show ?thesis by (intro conjI)
qed

section \<open>The node map of a path query\<close>

lemma nodesMapOf_None: "nodesMapOf ns x = None \<longleftrightarrow> x \<notin> n_id ` set ns"
  by (auto simp: nodesMapOf_def map_of_eq_None_iff image_iff)

lemma nodesMapOf_Some: "nodesMapOf ns x = Some n \<Longrightarrow> n \<in> set ns \<and> n_id n = x"
  by (auto simp: nodesMapOf_def dest!: map_of_SomeD)

lemma getNodesByIds_db_Inr:
  "getNodesByIds_db d g ids =
     Inr (filter (\<lambda>n. n_knowledgeGraphId n \<in> set g \<and> n_id n \<in> set ids) (nodeTable d))"
  by (cases ids) (simp_all add: getNodesByIds_db_def)

lemma getNodesByIds_pq_known:
  "g \<noteq> [] \<Longrightarrow> \<forall>i \<in> set g. map_of files i \<noteq> None \<Longrightarrow>
   getNodesByIds_pq files g ids = Inr (filter (\<lambda>n. n_id n \<in> set ids) (rowsOf selectNodes files g))"
  by (cases ids) (simp_all add: getNodesByIds_pq_def nodesSource_def rowSource_known)

lemma getNodesByIds_pq_Inr:
  "getNodesByIds_pq files g ids = Inr ns \<Longrightarrow> set ns \<subseteq> set (rowsOf selectNodes files g)"
  by (auto simp: getNodesByIds_pq_def nodesSource_def dest!: rowSource_Inr split: if_splits sum.splits)

lemma buildPaths_missing:
  assumes "\<And>ids ns. fetch ids = Inr ns \<Longrightarrow> a \<notin> n_id ` set ns \<or> b \<notin> n_id ` set ns"
    and "\<And>ids. \<exists>ns. fetch ids = Inr ns"
  shows "buildPaths fetch a b info = Inr []"
proof (cases "length info = 0")
  case True
  then show ?thesis by (simp add: buildPaths_def)
next
  case False
  from assms(2) obtain ns where f: "fetch (new_Set (a # b # map fst info)) = Inr ns" by blast
  from assms(1) [OF f] have "nodesMapOf ns a = None \<or> nodesMapOf ns b = None"
    by (simp add: nodesMapOf_None)
  with False f show ?thesis
    by (auto simp: buildPaths_def split: option.splits)
qed

text \<open>
  C4, as stated, fails in the columnar store: graph 7 is not in the files, so that no
  node \<open>Z\<close> is on record for it, and the path query fails with the unknown-graph error.
\<close>

theorem C4_unknown_graph_fails:
  "''Z'' \<notin> n_id ` set (rowsOf selectNodes exFiles [7])
   \<and> findPaths_pq exFiles [7] ''A'' ''Z'' = Inl (UnknownGraphId 7)"
  by code_simp

text \<open>
  C4, amended: in the columnar store, for every non-empty list \<open>g\<close> of graph ids that
  are all in the files, \<^verbatim>\<open>findPaths\<close> returns the empty list, and no error, when the
  source or the destination has no node row in the graphs \<open>g\<close>.
\<close>

theorem C4_missing_endpoint:
  "g \<noteq> [] \<and> (\<forall>i \<in> set g. map_of files i \<noteq> None) \<and>
      (a \<notin> n_id ` set (rowsOf selectNodes files g) \<or> b \<notin> n_id ` set (rowsOf selectNodes files g))
      \<longrightarrow> findPaths_pq files g a b = Inr []"
proof
  assume h: "g \<noteq> [] \<and> (\<forall>i \<in> set g. map_of files i \<noteq> None) \<and>
      (a \<notin> n_id ` set (rowsOf selectNodes files g) \<or> b \<notin> n_id ` set (rowsOf selectNodes files g))"
  then have g: "g \<noteq> []" and k: "\<forall>i \<in> set g. map_of files i \<noteq> None"
    and m: "a \<notin> n_id ` set (rowsOf selectNodes files g) \<or> b \<notin> n_id ` set (rowsOf selectNodes files g)"
    by simp_all
  have "buildPaths (getNodesByIds_pq files g) a b info = Inr []" for info
  proof (rule buildPaths_missing)
    fix ids ns assume "getNodesByIds_pq files g ids = Inr ns"
    from getNodesByIds_pq_Inr [OF this] m
    show "a \<notin> n_id ` set ns \<or> b \<notin> n_id ` set ns" by blast
  next
    fix ids show "\<exists>ns. getNodesByIds_pq files g ids = Inr ns"
      by (simp add: getNodesByIds_pq_known [OF g k])
  qed
  then show "findPaths_pq files g a b = Inr []"
    by (simp add: findPaths_pq_def edgesSource_def nodesSource_def rowSource_known [OF g k])
qed

text \<open>The witness is a query whose join is not empty: \<open>A\<close> and \<open>Z\<close> share the
  neighbour \<open>B\<close>, and it is the missing node row of \<open>Z\<close> that empties the result.\<close>

theorem C4_missing_endpoint_witness:
  "[1::int] \<noteq> [] \<and> map_of exFilesZ 1 \<noteq> None
   \<and> ''Z'' \<notin> n_id ` set (rowsOf selectNodes exFilesZ [1])
   \<and> innerJoin (neighborsWithType ''A'' (rowsOf selectEdges exFilesZ [1]))
                (neighborsWithType ''Z'' (rowsOf selectEdges exFilesZ [1]))
        = [(''B'', Some ''treats'', Some ''causes'')]
   \<and> findPaths_pq exFilesZ [1] ''A'' ''Z'' = Inr []"
proof -
  have h0: "map_of exFilesZ 1 \<noteq> None" by code_simp
  then have h2: "\<forall>i \<in> set [1]. map_of exFilesZ i \<noteq> None" by simp
  have h3: "''Z'' \<notin> n_id ` set (rowsOf selectNodes exFilesZ [1])" by code_simp
  have j: "innerJoin (neighborsWithType ''A'' (rowsOf selectEdges exFilesZ [1]))
                (neighborsWithType ''Z'' (rowsOf selectEdges exFilesZ [1]))
        = [(''B'', Some ''treats'', Some ''causes'')]"
    by code_simp
  have r: "findPaths_pq exFilesZ [1] ''A'' ''Z'' = Inr []"
    using C4_missing_endpoint [where g = "[1]" and files = exFilesZ and a = "''A''" and b = "''Z''"]
      h2 h3
    by simp
  from h0 h3 j r show ?thesis by simp
qed

section \<open>The relational path query\<close>

lemma resolveColumn_neighborId:
  "resolveColumn [(''source_neighbors'', [''neighborId'', ''edgeType'']),
                  (''destination_neighbors'', [''neighborId'', ''edgeType''])] ''neighborId''
     = Inl (AmbiguousColumn ''neighborId'')"
  by (simp add: resolveColumn_def)

lemma intermediateNodesInfo_db_fails:
  "intermediateNodesInfo_db d g a b = Inl (AmbiguousColumn ''neighborId'')"
  by (simp add: intermediateNodesInfo_db_def Let_def resolveColumn_neighborId)

lemma findPaths_db_fails: "findPaths_db d g a b = Inl FailedToFindPaths"
  by (simp add: findPaths_db_def intermediateNodesInfo_db_fails)

section \<open>Graph ids of the returned records\<close>

lemma keyedById_lookup: "keyedById files \<Longrightarrow> map_of files i = Some f \<Longrightarrow> knowledgeGraphId f = i"
  by (auto simp: keyedById_def list_all_iff dest!: map_of_SomeD)

lemma rowsOf_nodes_graph:
  "keyedById files \<Longrightarrow> n \<in> set (rowsOf selectNodes files g) \<Longrightarrow> n_knowledgeGraphId n \<in> set g"
  by (auto simp: set_rowsOf selectNodes_def dest: keyedById_lookup)

lemma rowsOf_edges_graph:
  "keyedById files \<Longrightarrow> e \<in> set (rowsOf selectEdges files g) \<Longrightarrow> e_knowledgeGraphId e \<in> set g"
  by (auto simp: set_rowsOf selectEdges_def dest: keyedById_lookup)

lemma Map_set_keyed:
  "keyedById m \<Longrightarrow> knowledgeGraphId v = k \<Longrightarrow> keyedById (Map_set k v m)"
  by (auto simp: keyedById_def Map_set_def list_all_iff)

lemma fold_Map_set_keyed:
  "keyedById acc \<Longrightarrow>
   keyedById (fold (\<lambda>e files. Map_set (meta_id e)
                       \<lparr>knowledgeGraphId = meta_id e, nodesPath = dir_nodes e,
                        edgesPath = dir_edges e\<rparr> files) dirs acc)"
  by (induction dirs arbitrary: acc) (simp_all add: Map_set_keyed)

lemma GraphLoader_keyed: "keyedById (GraphLoader_files dirs)"
  unfolding GraphLoader_files_def
  by (rule fold_Map_set_keyed) (simp add: keyedById_def)

lemma getNodesByIds_db_graph:
  "getNodesByIds_db d g ids = Inr ns \<Longrightarrow> n \<in> set ns \<Longrightarrow> n_knowledgeGraphId n \<in> set g"
  by (auto simp: getNodesByIds_db_Inr)

lemma getNodesByIds_pq_graph:
  "keyedById files \<Longrightarrow> getNodesByIds_pq files g ids = Inr ns \<Longrightarrow> n \<in> set ns \<Longrightarrow>
   n_knowledgeGraphId n \<in> set g"
  using getNodesByIds_pq_Inr rowsOf_nodes_graph by blast

lemma getEdgesBetweenNodes_db_graph:
  "getEdgesBetweenNodes_db d g a b = Inr es \<Longrightarrow> e \<in> set es \<Longrightarrow> e_knowledgeGraphId e \<in> set g"
  by (auto simp: getEdgesBetweenNodes_db_def)

lemma getEdgesBetweenNodes_pq_graph:
  "keyedById files \<Longrightarrow> getEdgesBetweenNodes_pq files g a b = Inr es \<Longrightarrow> e \<in> set es \<Longrightarrow>
   e_knowledgeGraphId e \<in> set g"
  by (auto simp: getEdgesBetweenNodes_pq_def edgesSource_def rowsOf_edges_graph
      dest!: rowSource_Inr split: sum.splits)

lemma searchNodesByName_db_graph:
  "g \<noteq> [] \<Longrightarrow> searchNodesByName_db ilike d name (Some g) limit = Inr ns \<Longrightarrow> n \<in> set ns \<Longrightarrow>
   n_knowledgeGraphId n \<in> set g"
  by (auto simp: searchNodesByName_db_def dest!: in_set_takeD)

lemma searchNodesByName_pq_graph:
  "keyedById files \<Longrightarrow> searchNodesByName_pq ilike files name (Some g) limit = Inr ns \<Longrightarrow>
   n \<in> set ns \<Longrightarrow> n_knowledgeGraphId n \<in> set g"
  by (auto simp: searchNodesByName_pq_def nodesSource_def rowsOf_nodes_graph
      dest!: in_set_takeD rowSource_Inr split: if_splits sum.splits)

lemma mkPath_nodes:
  "mkPath M s t x = Some p \<Longrightarrow> n \<in> pathNodes p \<Longrightarrow> n = s \<or> n = t \<or> (\<exists>i. M i = Some n)"
  by (cases x) (auto simp: pathNodes_def split: option.splits if_splits)

lemma buildPaths_nodes:
  assumes "buildPaths fetch a b info = Inr ps" and "p \<in> set ps" and "n \<in> pathNodes p"
  shows "\<exists>ids ns. fetch ids = Inr ns \<and> n \<in> set ns"
proof -
  from assms(1,2) obtain ns s t where f: "fetch (new_Set (a # b # map fst info)) = Inr ns"
    and s: "nodesMapOf ns a = Some s" and t: "nodesMapOf ns b = Some t"
    and ps: "ps = List.map_filter (mkPath (nodesMapOf ns) s t) info"
    by (auto simp: buildPaths_def split: if_splits sum.splits option.splits)
  from assms(2) ps obtain x where "mkPath (nodesMapOf ns) s t x = Some p"
    by (auto simp: List.map_filter_def)
  from mkPath_nodes [OF this assms(3)] s t have "n \<in> set ns"
    by (auto dest: nodesMapOf_Some)
  with f show ?thesis by blast
qed

lemma findPaths_db_graph:
  "findPaths_db d g a b = Inr ps \<Longrightarrow> p \<in> set ps \<Longrightarrow> n \<in> pathNodes p \<Longrightarrow>
   n_knowledgeGraphId n \<in> set g"
  by (simp add: findPaths_db_fails)

lemma findPaths_pq_graph:
  "keyedById files \<Longrightarrow> findPaths_pq files g a b = Inr ps \<Longrightarrow> p \<in> set ps \<Longrightarrow>
   n \<in> pathNodes p \<Longrightarrow> n_knowledgeGraphId n \<in> set g"
  unfolding findPaths_pq_def
  by (auto split: sum.splits dest!: buildPaths_nodes dest: getNodesByIds_pq_graph)

section \<open>The nodes of a surroundings response\<close>

lemma attachEdges_keeps:
  "nb_node (attachEdges n es c) = nb_node c"
  "matchExplanation (attachEdges n es c) = matchExplanation c"
  "relevance (attachEdges n es c) = relevance c"
  by (simp_all add: attachEdges_def)

lemma withEdges_keeps:
  "withEdges ge n cs = Inr out \<Longrightarrow>
   map nb_node out = map nb_node cs \<and> map matchExplanation out = map matchExplanation cs
   \<and> map relevance out = map relevance cs"
proof (induction cs arbitrary: out)
  case Nil
  then show ?case by simp
next
  case (Cons c cs)
  from Cons.prems obtain edges others where
    o: "withEdges ge n cs = Inr others" and out: "out = attachEdges n edges c # others"
    by (auto split: sum.splits)
  from Cons.IH [OF o] out show ?case by (simp add: attachEdges_keeps)
qed

lemma nb_node_plainNeighbor: "nb_node (plainNeighbor c) = c"
  by (simp add: plainNeighbor_def)

lemma nb_node_explain: "nb_node (explain cw) = fst cw"
  by (simp add: explain_def Let_def)

lemma set_propertyStage: "set (propertyStage q cs) = set (propertyMatches q cs)"
  by (simp add: propertyStage_def)

lemma propertyMatches_nodes: "cw \<in> set (propertyMatches q cs) \<Longrightarrow> fst cw \<in> set cs"
  by (auto simp: propertyMatches_def)

lemma candidatesInName_nodes: "c \<in> set (candidatesInName q cs) \<Longrightarrow> c \<in> set cs"
  by (simp add: candidatesInName_def)

lemma map_nb_node_candidatesWithQuery:
  "map nb_node (candidatesWithQuery query cs) =
     (if truthy query then candidatesInName (the query) cs @ map fst (propertyStage (the query) cs)
      else cs)"
  by (cases query)
     (simp_all add: candidatesWithQuery_def candidatesInProperties_def comp_def
        nb_node_plainNeighbor nb_node_explain)

lemma candidatesWithQuery_nodes:
  "nb_node ` set (candidatesWithQuery query cs) \<subseteq> set cs"
proof -
  have "set (map nb_node (candidatesWithQuery query cs)) \<subseteq> set cs"
    unfolding map_nb_node_candidatesWithQuery
    by (auto simp: set_propertyStage dest: propertyMatches_nodes candidatesInName_nodes)
  then show ?thesis by simp
qed

lemma respond_Inr:
  assumes "respond queries g nodeId hops main ranked = Inr resp"
  shows "mainNode resp = main"
    and "hops = 1 \<Longrightarrow> withEdges (q_getEdgesBetweenNodes queries g) nodeId ranked = Inr (neighbors resp)"
    and "hops \<noteq> 1 \<Longrightarrow> neighbors resp = map bareNeighbor ranked"
  using assms by (auto simp: respond_def split: if_splits sum.splits)

lemma searchInSurroundings_Inr:
  assumes "searchInSurroundings queries g nodeId query nodeType et k = Inr resp"
  obtains main others neighborIds fetched where
    "q_getNodesByIds queries g [nodeId] = Inr (main # others)"
    "q_getKHopNeighborIds queries g nodeId (hopsOf k) et = Inr neighborIds"
    "q_getNodesByIds queries g neighborIds = Inr fetched"
    "respond queries g nodeId (hopsOf k) main
       (candidatesWithQuery query (typeFiltered nodeType fetched)) = Inr resp"
  using assms
  by (auto simp: searchInSurroundings_def Let_def split: if_splits sum.splits list.splits)


lemma searchInSurroundings_node_list:
  assumes "searchInSurroundings queries g nodeId query nodeType et k = Inr resp"
  obtains main others neighborIds fetched where
    "q_getNodesByIds queries g [nodeId] = Inr (main # others)"
    "q_getKHopNeighborIds queries g nodeId (hopsOf k) et = Inr neighborIds"
    "q_getNodesByIds queries g neighborIds = Inr fetched"
    "mainNode resp = main"
    "map nb_node (neighbors resp) =
       map nb_node (candidatesWithQuery query (typeFiltered nodeType fetched))"
proof -
  from assms obtain main others neighborIds fetched where
    m: "q_getNodesByIds queries g [nodeId] = Inr (main # others)"
    and kh: "q_getKHopNeighborIds queries g nodeId (hopsOf k) et = Inr neighborIds"
    and f: "q_getNodesByIds queries g neighborIds = Inr fetched"
    and r: "respond queries g nodeId (hopsOf k) main
       (candidatesWithQuery query (typeFiltered nodeType fetched)) = Inr resp"
    by (rule searchInSurroundings_Inr)
  have "map nb_node (neighbors resp) =
        map nb_node (candidatesWithQuery query (typeFiltered nodeType fetched))"
  proof (cases "hopsOf k = 1")
    case True
    from withEdges_keeps [OF respond_Inr(2) [OF r True]] show ?thesis by simp
  next
    case False
    from respond_Inr(3) [OF r False] show ?thesis by (simp add: bareNeighbor_def plainNeighbor_def)
  qed
  with m kh f respond_Inr(1) [OF r] show ?thesis by (rule that)
qed

lemma searchInSurroundings_nodes:
  assumes "searchInSurroundings queries g nodeId query nodeType et k = Inr resp"
    and "n \<in> responseNodes resp"
  shows "\<exists>ids ns. q_getNodesByIds queries g ids = Inr ns \<and> n \<in> set ns"
proof -
  from assms(1) obtain main others neighborIds fetched where
    m: "q_getNodesByIds queries g [nodeId] = Inr (main # others)"
    and f: "q_getNodesByIds queries g neighborIds = Inr fetched"
    and mn: "mainNode resp = main"
    and l: "map nb_node (neighbors resp) =
       map nb_node (candidatesWithQuery query (typeFiltered nodeType fetched))"
    by (rule searchInSurroundings_node_list)
  from l have "nb_node ` set (neighbors resp) =
             nb_node ` set (candidatesWithQuery query (typeFiltered nodeType fetched))"
    by (metis set_map)
  with candidatesWithQuery_nodes have "nb_node ` set (neighbors resp) \<subseteq> set fetched"
    by (fastforce simp: typeFiltered_def split: if_splits)
  with assms(2) mn have "n = main \<or> n \<in> set fetched"
    by (auto simp: responseNodes_def)
  with m f show ?thesis by (metis list.set_intros(1))
qed

lemma searchInSurroundings_db_graph:
  "searchInSurroundings (queries_db d) g nodeId query nodeType et k = Inr resp \<Longrightarrow>
   n \<in> responseNodes resp \<Longrightarrow> n_knowledgeGraphId n \<in> set g"
  by (drule (1) searchInSurroundings_nodes) (auto simp: queries_db_def dest: getNodesByIds_db_graph)

lemma searchInSurroundings_pq_graph:
  "keyedById files \<Longrightarrow>
   searchInSurroundings (queries_pq files) g nodeId query nodeType et k = Inr resp \<Longrightarrow>
   n \<in> responseNodes resp \<Longrightarrow> n_knowledgeGraphId n \<in> set g"
  by (drule (1) searchInSurroundings_nodes) (auto simp: queries_pq_def dest: getNodesByIds_pq_graph)


lemma in_okList: "x \<in> set (okList r) \<Longrightarrow> \<exists>xs. r = Inr xs \<and> x \<in> set xs"
  by (cases r) (simp_all add: okList_def)

lemma in_okPathNodes:
  "n \<in> okPathNodes r \<Longrightarrow> \<exists>ps p. r = Inr ps \<and> p \<in> set ps \<and> n \<in> pathNodes p"
  by (auto simp: okPathNodes_def dest!: in_okList)

lemma in_okResponseNodes:
  "n \<in> okResponseNodes r \<Longrightarrow> \<exists>resp. r = Inr resp \<and> n \<in> responseNodes resp"
  by (cases r) (simp_all add: okResponseNodes_def)

lemma getKHop_ids:
  assumes "getKHopNeighborIds getN n k et = Inr r" and "m \<in> set r"
  shows "\<exists>x et' ns. getN x et' = Inr ns \<and> m \<in> set ns"
proof (cases "k = 1")
  case True
  with assms show ?thesis by (auto simp: getKHopNeighborIds_def)
next
  case False
  with assms obtain N1 N2 where one: "getN n None = Inr N1"
    and two: "twoHopLoop (\<lambda>m. getN m None) n N1 N1 [] = Inr N2" and r: "r = N1 @ N2"
    by (auto simp: getKHopNeighborIds_def split: if_splits sum.splits)
  from assms(2) r have "m \<in> set N1 \<or> m \<in> set N2" by simp
  then show ?thesis
  proof
    assume "m \<in> set N1"
    with one show ?thesis by blast
  next
    assume "m \<in> set N2"
    with twoHopLoop_set [OF two] show ?thesis by auto
  qed
qed

lemma neighborOf_endpoint: "neighborOf n fr t \<in> {fr, t}"
  by (simp add: neighborOf_def)

lemma getNeighbors_db_endpoint:
  assumes "getNeighbors_db d g n et = Inr ns" and "m \<in> set ns"
  shows "\<exists>e \<in> set (edgeTable d). e_knowledgeGraphId e \<in> set g \<and> m \<in> {e_from e, e_to e}"
proof -
  from getNeighbors_db_set [OF assms(1)] assms(2)
  obtain e where "e \<in> set (edgeTable d)" "e_knowledgeGraphId e \<in> set g"
    "m = neighborOf n (e_from e) (e_to e)" by auto
  with neighborOf_endpoint [of n "e_from e" "e_to e"] show ?thesis by auto
qed

lemma getNeighbors_pq_endpoint:
  assumes "keyedById files" and "getNeighbors_pq files g n et = Inr ns" and "m \<in> set ns"
  shows "\<exists>e \<in> set (rowsOf selectEdges files g). e_knowledgeGraphId e \<in> set g \<and> m \<in> {e_from e, e_to e}"
proof -
  from getNeighbors_pq_set [OF assms(2)] assms(3)
  obtain e where e: "e \<in> set (rowsOf selectEdges files g)"
    "m = neighborOf n (e_from e) (e_to e)" by auto
  with neighborOf_endpoint [of n "e_from e" "e_to e"] rowsOf_edges_graph [OF assms(1) e(1)]
  show ?thesis by auto
qed

lemma getKHopNeighborIds_db_endpoint:
  assumes "m \<in> set (okList (getKHopNeighborIds_db d g n k et))"
  shows "\<exists>e \<in> set (edgeTable d). e_knowledgeGraphId e \<in> set g \<and> m \<in> {e_from e, e_to e}"
proof -
  from in_okList [OF assms] obtain r where "getKHopNeighborIds_db d g n k et = Inr r" "m \<in> set r"
    by blast
  then obtain x et' ns where "getNeighbors_db d g x et' = Inr ns" "m \<in> set ns"
    unfolding getKHopNeighborIds_db_def by (blast dest: getKHop_ids)
  then show ?thesis by (rule getNeighbors_db_endpoint)
qed

lemma getKHopNeighborIds_pq_endpoint:
  assumes "keyedById files" and "m \<in> set (okList (getKHopNeighborIds_pq files g n k et))"
  shows "\<exists>e \<in> set (rowsOf selectEdges files g). e_knowledgeGraphId e \<in> set g \<and> m \<in> {e_from e, e_to e}"
proof -
  from in_okList [OF assms(2)] obtain r where "getKHopNeighborIds_pq files g n k et = Inr r" "m \<in> set r"
    by blast
  then obtain x et' ns where "getNeighbors_pq files g x et' = Inr ns" "m \<in> set ns"
    unfolding getKHopNeighborIds_pq_def by (blast dest: getKHop_ids)
  with assms(1) show ?thesis by (rule getNeighbors_pq_endpoint)
qed

lemma in_edgeEnds: "m \<in> edgeEnds es \<longleftrightarrow> (\<exists>e \<in> set es. m \<in> {e_from e, e_to e})"
  by (auto simp: edgeEnds_def)

text \<open>
  C2, as stated, fails: with the empty list of graph ids the name search of the
  relational store applies no graph filter and returns a node of graph 1.
\<close>

theorem C2_empty_list_unfiltered:
  "searchNodesByName_db ilike_contains exDb ''met'' (Some []) 10 =
     Inr [exNodeA]
   \<and> n_knowledgeGraphId exNodeA = 1"
  by code_simp

text \<open>
  C2, amended: every id returned by the neighbour expansion is an end of an edge whose
  graph id is in the list \<open>g\<close> the call was given; every node returned by the node lookup, by the path query (the tail and
  head of every leg) and by the surroundings search (the main node and the neighbours),
  and every edge returned by the edge lookup, carries a graph id of the list \<open>g\<close> the
  call was given; so does every node of the name search, in the relational store
  provided \<open>g\<close> is not empty. In the columnar store the files are keyed by their own
  graph id, as the loader builds them.
\<close>

theorem C2_graph_ids:
  assumes "keyedById files"
  shows "set (okList (getKHopNeighborIds_db d g a hops et))
            \<subseteq> edgeEnds (filter (\<lambda>e. e_knowledgeGraphId e \<in> set g) (edgeTable d))
       \<and> set (okList (getKHopNeighborIds_pq files g a hops et))
            \<subseteq> edgeEnds (filter (\<lambda>e. e_knowledgeGraphId e \<in> set g) (rowsOf selectEdges files g))
       \<and> n_knowledgeGraphId ` set (okList (getNodesByIds_db d g ids)) \<subseteq> set g
       \<and> e_knowledgeGraphId ` set (okList (getEdgesBetweenNodes_db d g a b)) \<subseteq> set g
       \<and> n_knowledgeGraphId ` okPathNodes (findPaths_db d g a b) \<subseteq> set g
       \<and> n_knowledgeGraphId `
            okResponseNodes (searchInSurroundings (queries_db d) g a query nodeType et k) \<subseteq> set g
       \<and> (g \<noteq> [] \<longrightarrow>
            n_knowledgeGraphId ` set (okList (searchNodesByName_db ilike d name (Some g) limit))
              \<subseteq> set g)
       \<and> n_knowledgeGraphId ` set (okList (getNodesByIds_pq files g ids)) \<subseteq> set g
       \<and> e_knowledgeGraphId ` set (okList (getEdgesBetweenNodes_pq files g a b)) \<subseteq> set g
       \<and> n_knowledgeGraphId ` okPathNodes (findPaths_pq files g a b) \<subseteq> set g
       \<and> n_knowledgeGraphId `
            okResponseNodes (searchInSurroundings (queries_pq files) g a query nodeType et k) \<subseteq> set g
       \<and> n_knowledgeGraphId ` set (okList (searchNodesByName_pq ilike files name (Some g) limit))
            \<subseteq> set g"
proof (intro conjI impI)
  show "set (okList (getKHopNeighborIds_db d g a hops et))
            \<subseteq> edgeEnds (filter (\<lambda>e. e_knowledgeGraphId e \<in> set g) (edgeTable d))"
  proof
    fix m assume "m \<in> set (okList (getKHopNeighborIds_db d g a hops et))"
    from getKHopNeighborIds_db_endpoint [OF this]
    show "m \<in> edgeEnds (filter (\<lambda>e. e_knowledgeGraphId e \<in> set g) (edgeTable d))"
      unfolding in_edgeEnds by fastforce
  qed
  show "set (okList (getKHopNeighborIds_pq files g a hops et))
            \<subseteq> edgeEnds (filter (\<lambda>e. e_knowledgeGraphId e \<in> set g) (rowsOf selectEdges files g))"
  proof
    fix m assume "m \<in> set (okList (getKHopNeighborIds_pq files g a hops et))"
    from getKHopNeighborIds_pq_endpoint [OF assms this]
    show "m \<in> edgeEnds (filter (\<lambda>e. e_knowledgeGraphId e \<in> set g)
                 (rowsOf selectEdges files g))"
      unfolding in_edgeEnds by fastforce
  qed
  show "n_knowledgeGraphId ` set (okList (getNodesByIds_db d g ids)) \<subseteq> set g"
    by (auto dest!: in_okList dest: getNodesByIds_db_graph)
  show "e_knowledgeGraphId ` set (okList (getEdgesBetweenNodes_db d g a b)) \<subseteq> set g"
    by (auto dest!: in_okList dest: getEdgesBetweenNodes_db_graph)
  show "n_knowledgeGraphId ` okPathNodes (findPaths_db d g a b) \<subseteq> set g"
    by (auto dest!: in_okPathNodes dest: findPaths_db_graph)
  show "n_knowledgeGraphId `
            okResponseNodes (searchInSurroundings (queries_db d) g a query nodeType et k) \<subseteq> set g"
    by (auto dest!: in_okResponseNodes dest: searchInSurroundings_db_graph)
  show "n_knowledgeGraphId ` set (okList (searchNodesByName_db ilike d name (Some g) limit))
              \<subseteq> set g" if "g \<noteq> []"
    using that by (auto dest!: in_okList dest: searchNodesByName_db_graph)
  show "n_knowledgeGraphId ` set (okList (getNodesByIds_pq files g ids)) \<subseteq> set g"
    using assms by (auto dest!: in_okList dest: getNodesByIds_pq_graph)
  show "e_knowledgeGraphId ` set (okList (getEdgesBetweenNodes_pq files g a b)) \<subseteq> set g"
    using assms by (auto dest!: in_okList dest: getEdgesBetweenNodes_pq_graph)
  show "n_knowledgeGraphId ` okPathNodes (findPaths_pq files g a b) \<subseteq> set g"
    using assms by (auto dest!: in_okPathNodes dest: findPaths_pq_graph)
  show "n_knowledgeGraphId `
            okResponseNodes (searchInSurroundings (queries_pq files) g a query nodeType et k) \<subseteq> set g"
    using assms by (auto dest!: in_okResponseNodes dest: searchInSurroundings_pq_graph)
  show "n_knowledgeGraphId ` set (okList (searchNodesByName_pq ilike files name (Some g) limit))
            \<subseteq> set g"
    using assms by (auto dest!: in_okList dest: searchNodesByName_pq_graph)
qed

theorem C2_graph_ids_witness:
  "keyedById exFiles \<and> [1::int] \<noteq> []
   \<and> okList (searchNodesByName_db ilike_contains exDb ''met'' (Some [1]) 10) \<noteq> []
   \<and> n_knowledgeGraphId ` set (okList (searchNodesByName_db ilike_contains exDb ''met'' (Some [1]) 10))
        \<subseteq> set [1]
   \<and> okPathNodes (findPaths_pq exFiles [1] ''A'' ''C'') \<noteq> {}
   \<and> n_knowledgeGraphId ` okPathNodes (findPaths_pq exFiles [1] ''A'' ''C'') \<subseteq> set [1]"
proof -
  have h: "keyedById exFiles" by code_simp
  have ne: "[1::int] \<noteq> []" by simp
  have w1: "okList (searchNodesByName_db ilike_contains exDb ''met'' (Some [1]) 10) \<noteq> []"
    by code_simp
  have w2: "okPathNodes (findPaths_pq exFiles [1] ''A'' ''C'') \<noteq> {}" by code_simp
  note t = C2_graph_ids [OF h, where d = exDb and g = "[1]" and ids = "[''A'']" and a = "''A''"
      and hops = 1
      and b = "''C''" and query = None and nodeType = None and et = None and k = None
      and ilike = ilike_contains and name = "''met''" and limit = 10]
  from t ne have c5:
    "n_knowledgeGraphId ` set (okList (searchNodesByName_db ilike_contains exDb ''met'' (Some [1]) 10))
        \<subseteq> set [1]"
    by (elim conjE impE) assumption+
  from t have c8: "n_knowledgeGraphId ` okPathNodes (findPaths_pq exFiles [1] ''A'' ''C'') \<subseteq> set [1]"
    by (elim conjE) assumption
  from h ne w1 c5 w2 c8 show ?thesis by (intro conjI)
qed

section \<open>Tokenising the query\<close>

text \<open>
  C7 says that tokenisation replaces every hyphen of the query by a space and splits
  on whitespace. The code's \<^verbatim>\<open>query.replace("-", " ")\<close> replaces the first hyphen
  only: the query \<open>x-ray-beam\<close> gives the tokens \<open>x\<close> and \<open>ray-beam\<close>, where the
  tokenisation of the specification gives \<open>x\<close>, \<open>ray\<close> and \<open>beam\<close>.
\<close>

theorem C7_first_hyphen_only:
  "queryWords ''x-ray-beam'' = [''x'', ''ray-beam'']
   \<and> tokenize_spec ''x-ray-beam'' = [''x'', ''ray'', ''beam'']"
  by code_simp

section \<open>The two-hop response\<close>

text \<open>
  C10: every neighbour of a two-hop surroundings response has the five node fields
  and nothing else: no \<^verbatim>\<open>matchExplanation\<close>, \<^verbatim>\<open>relevance\<close> or
  \<^verbatim>\<open>appearingWords\<close> from the ranking, and no edge lists. In the example the
  candidate \<open>C\<close> is a property match with the explanation "1 match: ray", and the
  response carries it bare.
\<close>

theorem C10_two_hop_bare:
  assumes "searchInSurroundings queries g nodeId query nodeType et (Some K2) = Inr resp"
  shows "\<forall>nb \<in> set (neighbors resp).
           matchExplanation nb = None \<and> relevance nb = None \<and> appearingWords nb = None
           \<and> edgesToCandidate nb = None \<and> edgesFromCandidate nb = None"
proof -
  from assms obtain main fetched where
    "respond queries g nodeId (hopsOf (Some K2)) main
       (candidatesWithQuery query (typeFiltered nodeType fetched)) = Inr resp"
    by (rule searchInSurroundings_Inr)
  then have "neighbors resp = map bareNeighbor (candidatesWithQuery query (typeFiltered nodeType fetched))"
    by (simp add: respond_Inr(3))
  then show ?thesis
    by (auto simp: bareNeighbor_def plainNeighbor_def)
qed

theorem C10_two_hop_bare_witness:
  "searchInSurroundings (queries_pq exFiles) [1] ''A'' (Some ''ray'') None None (Some K2)
     = Inr \<lparr>mainNode = exNodeA, neighbors = [plainNeighbor exNodeC]\<rparr>
   \<and> map matchExplanation (candidatesWithQuery (Some ''ray'') [exNodeB, exNodeC])
       = [Some ''1 match: ray'']
   \<and> matchExplanation (plainNeighbor exNodeC) = None
   \<and> relevance (plainNeighbor exNodeC) = None
   \<and> appearingWords (plainNeighbor exNodeC) = None
   \<and> edgesToCandidate (plainNeighbor exNodeC) = None
   \<and> edgesFromCandidate (plainNeighbor exNodeC) = None"
proof -
  have h: "searchInSurroundings (queries_pq exFiles) [1] ''A'' (Some ''ray'') None None (Some K2)
     = Inr \<lparr>mainNode = exNodeA, neighbors = [plainNeighbor exNodeC]\<rparr>"
    by code_simp
  have r: "map matchExplanation (candidatesWithQuery (Some ''ray'') [exNodeB, exNodeC])
       = [Some ''1 match: ray'']"
    by code_simp
  from C10_two_hop_bare [OF h]
  have "matchExplanation (plainNeighbor exNodeC) = None
      \<and> relevance (plainNeighbor exNodeC) = None
      \<and> appearingWords (plainNeighbor exNodeC) = None
      \<and> edgesToCandidate (plainNeighbor exNodeC) = None
      \<and> edgesFromCandidate (plainNeighbor exNodeC) = None"
    by simp
  with h r show ?thesis by (intro conjI) simp_all
qed

section \<open>Ranking the candidates\<close>

lemma propertyStage_sorted:
  "sorted_wrt (\<lambda>a b. length (snd b) \<le> length (snd a)) (propertyStage q cs)"
proof -
  have "sorted (map (\<lambda>cw. - int (length (snd cw))) (propertyStage q cs))"
    unfolding propertyStage_def by (rule sorted_sort_key)
  then show ?thesis by (simp add: sorted_map)
qed

lemma propertyStage_mset: "mset (propertyStage q cs) = mset (propertyMatches q cs)"
  by (simp add: propertyStage_def)

lemma propertyStage_stable:
  "filter (\<lambda>p. length (snd p) = r) (propertyStage q cs) =
   filter (\<lambda>p. length (snd p) = r) (propertyMatches q cs)"
proof -
  have "filter (\<lambda>p. - int (length (snd p)) = - int r) (propertyStage q cs) =
        filter (\<lambda>p. - int (length (snd p)) = - int r) (propertyMatches q cs)"
    unfolding propertyStage_def by (rule sort_key_stable)
  then show ?thesis by simp
qed

lemma propertyMatches_positive: "p \<in> set (propertyMatches q cs) \<Longrightarrow> 0 < length (snd p)"
  by (auto simp: propertyMatches_def)

lemma propertyMatches_words:
  "p \<in> set (propertyMatches q cs) \<Longrightarrow> snd p = appearingWordsOf (queryWords q) (fst p)"
  by (auto simp: propertyMatches_def)

lemma propertyMatches_which:
  "map fst (propertyMatches q cs) =
     filter (\<lambda>c. \<not> list_ex (\<lambda>cin. n_id cin = n_id c) (candidatesInName q cs)
                 \<and> truthy (n_properties c) \<and> appearingWordsOf (queryWords q) c \<noteq> []) cs"
  by (induction cs) (auto simp: propertyMatches_def filter_map comp_def)

lemma candidatesWithQuery_explanations:
  "q \<noteq> [] \<Longrightarrow>
   map matchExplanation (candidatesWithQuery (Some q) cs) =
     replicate (length (candidatesInName q cs)) None
     @ map (matchExplanation \<circ> explain) (propertyStage q cs)"
  by (simp add: candidatesWithQuery_def candidatesInProperties_def plainNeighbor_def comp_def
      map_replicate_const)

lemma response_explanations:
  assumes "respond queries g nodeId hops main ranked = Inr resp"
  shows "map matchExplanation (neighbors resp) =
         (if hops = 1 then map matchExplanation ranked else replicate (length ranked) None)"
proof (cases "hops = 1")
  case True
  from withEdges_keeps [OF respond_Inr(2) [OF assms True]] True show ?thesis by simp
next
  case False
  from respond_Inr(3) [OF assms False] False show ?thesis
    by (simp add: bareNeighbor_def plainNeighbor_def comp_def map_replicate_const)
qed

lemma take_names_None:
  assumes "map matchExplanation ns = replicate m None @ rest \<or>
           map matchExplanation ns = replicate (length ns) None"
    and "nb \<in> set (take m ns)"
  shows "matchExplanation nb = None"
proof -
  from assms(1) have "set (take m (map matchExplanation ns)) \<subseteq> {None}"
  proof
    assume "map matchExplanation ns = replicate m None @ rest"
    then show ?thesis by auto
  next
    assume "map matchExplanation ns = replicate (length ns) None"
    then show ?thesis by (auto dest!: in_set_takeD)
  qed
  moreover from assms(2) have "matchExplanation nb \<in> set (take m (map matchExplanation ns))"
    by (metis image_eqI set_map take_map)
  ultimately show ?thesis by blast
qed

text \<open>
  C8: for a surroundings search with a non-empty query, let \<open>cs\<close> be the fetched
  candidates after the node-type filter. The neighbours of the response are, in this
  order, the name matches (the candidates whose name contains the query, ignoring
  case) in fetch order, none of which carries a \<^verbatim>\<open>matchExplanation\<close>, and then the
  property matches: the candidates that share no id with a name match, have a non-empty
  properties text and at least one appearing query word, each with its appearing
  words, whose number is its relevance and is positive. The property matches are a
  permutation of themselves in fetch order, sorted by falling relevance, and those of
  equal relevance keep their fetch order.
\<close>

theorem C8_ranked_order:
  assumes "searchInSurroundings queries g nodeId (Some q) nodeType et k = Inr resp"
    and "q \<noteq> []"
  shows "\<exists>neighborIds fetched cs names props.
      q_getKHopNeighborIds queries g nodeId (hopsOf k) et = Inr neighborIds
    \<and> q_getNodesByIds queries g neighborIds = Inr fetched
    \<and> cs = typeFiltered nodeType fetched
    \<and> names = filter (nameMatches q) cs
    \<and> props = propertyStage q cs
    \<and> map nb_node (neighbors resp) = names @ map fst props
    \<and> (\<forall>nb \<in> set (take (length names) (neighbors resp)). matchExplanation nb = None)
    \<and> map fst (propertyMatches q cs) =
         filter (\<lambda>c. \<not> list_ex (\<lambda>cin. n_id cin = n_id c) names
                     \<and> truthy (n_properties c) \<and> appearingWordsOf (queryWords q) c \<noteq> []) cs
    \<and> mset props = mset (propertyMatches q cs)
    \<and> (\<forall>p \<in> set props. snd p = appearingWordsOf (queryWords q) (fst p) \<and> 0 < length (snd p))
    \<and> sorted_wrt (\<lambda>a b. length (snd b) \<le> length (snd a)) props
    \<and> (\<forall>r. filter (\<lambda>p. length (snd p) = r) props =
             filter (\<lambda>p. length (snd p) = r) (propertyMatches q cs))"
proof -
  from assms(1) obtain main neighborIds fetched where
    kh: "q_getKHopNeighborIds queries g nodeId (hopsOf k) et = Inr neighborIds"
    and f: "q_getNodesByIds queries g neighborIds = Inr fetched"
    and r: "respond queries g nodeId (hopsOf k) main
       (candidatesWithQuery (Some q) (typeFiltered nodeType fetched)) = Inr resp"
    by (rule searchInSurroundings_Inr)
  define cs where "cs = typeFiltered nodeType fetched"
  define names where "names = filter (nameMatches q) cs"
  define props where "props = propertyStage q cs"
  have cn: "candidatesInName q cs = names" by (simp add: names_def candidatesInName_def)
  from assms(1) obtain neighborIds' fetched' where
    kh': "q_getKHopNeighborIds queries g nodeId (hopsOf k) et = Inr neighborIds'"
    and f': "q_getNodesByIds queries g neighborIds' = Inr fetched'"
    and l: "map nb_node (neighbors resp) =
       map nb_node (candidatesWithQuery (Some q) (typeFiltered nodeType fetched'))"
    by (rule searchInSurroundings_node_list)
  from kh kh' f f' have "fetched' = fetched" by simp
  with l assms(2) have 1: "map nb_node (neighbors resp) = names @ map fst props"
    by (simp add: map_nb_node_candidatesWithQuery cs_def [symmetric] cn props_def)
  have e: "map matchExplanation (neighbors resp) =
             replicate (length names) None @ map (matchExplanation \<circ> explain) props
         \<or> map matchExplanation (neighbors resp) = replicate (length (neighbors resp)) None"
  proof (cases "hopsOf k = 1")
    case True
    with response_explanations [OF r] candidatesWithQuery_explanations [OF assms(2), of cs]
    show ?thesis by (simp add: cs_def [symmetric] cn props_def)
  next
    case False
    from response_explanations [OF r] False have
      "map matchExplanation (neighbors resp) =
         replicate (length (candidatesWithQuery (Some q) (typeFiltered nodeType fetched))) None"
      by simp
    moreover from this have "length (neighbors resp) =
         length (candidatesWithQuery (Some q) (typeFiltered nodeType fetched))"
      by (metis length_map length_replicate)
    ultimately show ?thesis by simp
  qed
  have 2: "\<forall>nb \<in> set (take (length names) (neighbors resp)). matchExplanation nb = None"
    using take_names_None [OF e] by blast
  have 3: "map fst (propertyMatches q cs) =
         filter (\<lambda>c. \<not> list_ex (\<lambda>cin. n_id cin = n_id c) names
                     \<and> truthy (n_properties c) \<and> appearingWordsOf (queryWords q) c \<noteq> []) cs"
    using propertyMatches_which [of q cs] by (simp add: cn)
  have 4: "mset props = mset (propertyMatches q cs)"
    by (simp add: props_def propertyStage_mset)
  have 5: "\<forall>p \<in> set props. snd p = appearingWordsOf (queryWords q) (fst p) \<and> 0 < length (snd p)"
    by (auto simp: props_def set_propertyStage dest: propertyMatches_words propertyMatches_positive)
  have 6: "sorted_wrt (\<lambda>a b. length (snd b) \<le> length (snd a)) props"
    by (simp add: props_def propertyStage_sorted)
  have 7: "\<forall>r. filter (\<lambda>p. length (snd p) = r) props =
             filter (\<lambda>p. length (snd p) = r) (propertyMatches q cs)"
    by (simp add: props_def propertyStage_stable)
  from kh f cs_def names_def props_def 1 2 3 4 5 6 7 show ?thesis by blast
qed

text \<open>Two one-hop calls at \<open>B\<close>: the query \<open>x-ray drug\<close>, whose two property
  matches the ranking puts against the fetch order, and the query \<open>r\<close>, with the name
  match \<open>A\<close> before the property match \<open>C\<close>.\<close>

theorem C8_ranked_order_witness:
  "searchInSurroundings (queries_pq exFiles) [1] ''B'' (Some ''x-ray drug'') None None (Some K1)
     = Inr exRanked
   \<and> ''x-ray drug'' \<noteq> []
   \<and> (\<exists>neighborIds fetched cs names props.
      q_getKHopNeighborIds (queries_pq exFiles) [1] ''B'' (hopsOf (Some K1)) None = Inr neighborIds
    \<and> q_getNodesByIds (queries_pq exFiles) [1] neighborIds = Inr fetched
    \<and> cs = typeFiltered None fetched
    \<and> names = filter (nameMatches ''x-ray drug'') cs
    \<and> props = propertyStage ''x-ray drug'' cs
    \<and> map nb_node (neighbors exRanked) = names @ map fst props
    \<and> (\<forall>nb \<in> set (take (length names) (neighbors exRanked)). matchExplanation nb = None)
    \<and> map fst (propertyMatches ''x-ray drug'' cs) =
         filter (\<lambda>c. \<not> list_ex (\<lambda>cin. n_id cin = n_id c) names
                     \<and> truthy (n_properties c)
                     \<and> appearingWordsOf (queryWords ''x-ray drug'') c \<noteq> []) cs
    \<and> mset props = mset (propertyMatches ''x-ray drug'' cs)
    \<and> (\<forall>p \<in> set props. snd p = appearingWordsOf (queryWords ''x-ray drug'') (fst p)
                           \<and> 0 < length (snd p))
    \<and> sorted_wrt (\<lambda>a b. length (snd b) \<le> length (snd a)) props
    \<and> (\<forall>r. filter (\<lambda>p. length (snd p) = r) props =
             filter (\<lambda>p. length (snd p) = r) (propertyMatches ''x-ray drug'' cs)))
   \<and> searchInSurroundings (queries_pq exFiles) [1] ''B'' (Some ''r'') None None (Some K1)
     = Inr exRankedR
   \<and> ''r'' \<noteq> []
   \<and> (\<exists>neighborIds fetched cs names props.
      q_getKHopNeighborIds (queries_pq exFiles) [1] ''B'' (hopsOf (Some K1)) None = Inr neighborIds
    \<and> q_getNodesByIds (queries_pq exFiles) [1] neighborIds = Inr fetched
    \<and> cs = typeFiltered None fetched
    \<and> names = filter (nameMatches ''r'') cs
    \<and> props = propertyStage ''r'' cs
    \<and> map nb_node (neighbors exRankedR) = names @ map fst props
    \<and> (\<forall>nb \<in> set (take (length names) (neighbors exRankedR)). matchExplanation nb = None)
    \<and> map fst (propertyMatches ''r'' cs) =
         filter (\<lambda>c. \<not> list_ex (\<lambda>cin. n_id cin = n_id c) names
                     \<and> truthy (n_properties c)
                     \<and> appearingWordsOf (queryWords ''r'') c \<noteq> []) cs
    \<and> mset props = mset (propertyMatches ''r'' cs)
    \<and> (\<forall>p \<in> set props. snd p = appearingWordsOf (queryWords ''r'') (fst p)
                           \<and> 0 < length (snd p))
    \<and> sorted_wrt (\<lambda>a b. length (snd b) \<le> length (snd a)) props
    \<and> (\<forall>r. filter (\<lambda>p. length (snd p) = r) props =
             filter (\<lambda>p. length (snd p) = r) (propertyMatches ''r'' cs)))"
proof -
  have h: "searchInSurroundings (queries_pq exFiles) [1] ''B'' (Some ''x-ray drug'') None None
             (Some K1) = Inr exRanked"
    by code_simp
  have ne: "''x-ray drug'' \<noteq> []" by simp
  have h': "searchInSurroundings (queries_pq exFiles) [1] ''B'' (Some ''r'') None None
             (Some K1) = Inr exRankedR"
    by code_simp
  have ne': "''r'' \<noteq> []" by simp
  from h ne C8_ranked_order [OF h ne] h' ne' C8_ranked_order [OF h' ne']
  show ?thesis by (intro conjI)
qed

section \<open>Paths in both directions\<close>

lemma innerJoin_Nil_right: "innerJoin A [] = []"
  by (induction A) (simp_all add: innerJoin_def)

lemma innerJoin_Cons_left:
  "innerJoin (s # A) B =
     map (\<lambda>d. (fst s, snd s, snd d)) (filter (\<lambda>d. fst s = fst d) B) @ innerJoin A B"
  by (simp add: innerJoin_def)

lemma mset_innerJoin_Cons_right:
  "mset (innerJoin A (d # B)) =
     mset (map (\<lambda>s. (fst s, snd s, snd d)) (filter (\<lambda>s. fst s = fst d) A)) + mset (innerJoin A B)"
  by (induction A) (auto simp: innerJoin_Cons_left innerJoin_def)

lemma mset_innerJoin_swap: "mset (innerJoin B A) = mset (map swapTypes (innerJoin A B))"
proof (induction A)
  case Nil
  show ?case by (simp add: innerJoin_Nil_right innerJoin_def)
next
  case (Cons s A)
  have "map (\<lambda>b. (fst b, snd b, snd s)) (filter (\<lambda>b. fst b = fst s) B) =
        map swapTypes (map (\<lambda>d. (fst s, snd s, snd d)) (filter (\<lambda>d. fst s = fst d) B))"
    by (induction B) (auto simp: swapTypes_def)
  with Cons show ?case
    by (simp add: mset_innerJoin_Cons_right innerJoin_Cons_left)
qed

lemma legPair_reverseLeg: "legPair (reverseLeg l) = legPair l"
  by (auto simp: legPair_def reverseLeg_def)

lemma pathPairs_reversePath: "pathPairs (reversePath p) = rev (pathPairs p)"
  by (simp add: pathPairs_def reversePath_def rev_map legPair_reverseLeg comp_def)

lemma mkPath_swap:
  "mkPath M t s (swapTypes x) = map_option reversePath (mkPath M s t x)"
  by (cases x) (auto simp: swapTypes_def reversePath_def reverseLeg_def split: option.splits)

lemma map_filter_map: "List.map_filter f (map h xs) = List.map_filter (f \<circ> h) xs"
  by (induction xs) (simp_all add: List.map_filter_def)

lemma map_filter_map_option:
  "List.map_filter (\<lambda>x. map_option h (f x)) xs = map h (List.map_filter f xs)"
  by (induction xs) (auto simp: List.map_filter_def)

lemma mset_map_filter_cong:
  "mset xs = mset ys \<Longrightarrow> mset (List.map_filter f xs) = mset (List.map_filter f ys)"
  by (simp add: List.map_filter_def)

lemma mset_map_filter_mkPath:
  assumes "mset info' = mset (map swapTypes info)"
  shows "mset (List.map_filter (mkPath M t s) info') =
         mset (map reversePath (List.map_filter (mkPath M s t) info))"
proof -
  have "mset (List.map_filter (mkPath M t s) info') =
        mset (List.map_filter (mkPath M t s) (map swapTypes info))"
    by (rule mset_map_filter_cong [OF assms])
  also have "List.map_filter (mkPath M t s) (map swapTypes info) =
        List.map_filter (\<lambda>x. map_option reversePath (mkPath M s t x)) info"
    by (simp add: map_filter_map comp_def mkPath_swap)
  also have "\<dots> = map reversePath (List.map_filter (mkPath M s t) info)"
    by (rule map_filter_map_option)
  finally show ?thesis .
qed

lemma buildPaths_reverse:
  assumes fetch: "\<And>ids ids'. set ids = set ids' \<Longrightarrow> ids \<noteq> [] \<Longrightarrow> ids' \<noteq> [] \<Longrightarrow>
                    fetch ids = fetch ids'"
    and sw: "mset info' = mset (map swapTypes info)"
  shows "(\<exists>err. buildPaths fetch a b info = Inl err \<and> buildPaths fetch b a info' = Inl err)
       \<or> (\<exists>ps qs. buildPaths fetch a b info = Inr ps \<and> buildPaths fetch b a info' = Inr qs
                  \<and> mset qs = mset (map reversePath ps))"
proof (cases "length info = 0")
  case True
  with sw have "info' = []" by simp
  with True show ?thesis by (simp add: buildPaths_def)
next
  case False
  from sw have len: "length info' = length info"
    by (metis length_map size_mset)
  from sw have "set info' = swapTypes ` set info"
    by (metis set_map set_mset_mset)
  then have "fst ` set info' = fst ` set info"
    by (auto simp: swapTypes_def image_iff) force+
  then have "set (new_Set (b # a # map fst info')) = set (new_Set (a # b # map fst info))"
    by (auto simp: set_new_Set)
  moreover have "new_Set (b # a # map fst info') \<noteq> []" "new_Set (a # b # map fst info) \<noteq> []"
    by (metis list.set_intros(1) set_new_Set empty_iff empty_set)+
  ultimately have f: "fetch (new_Set (b # a # map fst info')) = fetch (new_Set (a # b # map fst info))"
    by (rule fetch [OF _ _ _])
  show ?thesis
  proof (cases "fetch (new_Set (a # b # map fst info))")
    case (Inl err)
    with f False len show ?thesis by (simp add: buildPaths_def)
  next
    case (Inr ns)
    show ?thesis
    proof (cases "nodesMapOf ns a")
      case None
      with Inr f False len show ?thesis
        by (auto simp: buildPaths_def split: option.splits)
    next
      case sa: (Some s)
      show ?thesis
      proof (cases "nodesMapOf ns b")
        case None
        with Inr f False len show ?thesis
          by (auto simp: buildPaths_def split: option.splits)
      next
        case sb: (Some t)
        from Inr f False len sa sb mset_map_filter_mkPath [OF sw, of "nodesMapOf ns" t s]
        show ?thesis by (simp add: buildPaths_def)
      qed
    qed
  qed
qed

lemma getNodesByIds_pq_set_cong:
  "set ids = set ids' \<Longrightarrow> ids \<noteq> [] \<Longrightarrow> ids' \<noteq> [] \<Longrightarrow>
   getNodesByIds_pq files g ids = getNodesByIds_pq files g ids'"
  by (simp add: getNodesByIds_pq_def split: sum.splits)

lemma reversed_pairs:
  assumes "mset qs = mset (map reversePath ps)"
  shows "length ps = length qs \<and> mset (map pathPairs ps) = mset (map (rev \<circ> pathPairs) qs)"
proof -
  from assms have "length qs = length ps"
    by (metis length_map size_mset)
  moreover have "mset (map (rev \<circ> pathPairs) qs) = mset (map (rev \<circ> pathPairs) (map reversePath ps))"
    using assms by (metis mset_map)
  moreover have "map (rev \<circ> pathPairs) (map reversePath ps) = map pathPairs ps"
    by (simp add: pathPairs_reversePath)
  ultimately show ?thesis by (simp only:)
qed

lemma findPaths_pq_reverse:
  "(\<exists>err. findPaths_pq files g a b = Inl err \<and> findPaths_pq files g b a = Inl err)
   \<or> (\<exists>ps qs. findPaths_pq files g a b = Inr ps \<and> findPaths_pq files g b a = Inr qs
          \<and> mset qs = mset (map reversePath ps))"
proof (cases "edgesSource files g")
  case (Inl err)
  then show ?thesis by (simp add: findPaths_pq_def)
next
  case e: (Inr E)
  show ?thesis
  proof (cases "nodesSource files g")
    case (Inl err)
    with e show ?thesis by (simp add: findPaths_pq_def)
  next
    case (Inr N)
    let ?info = "innerJoin (neighborsWithType a E) (neighborsWithType b E)"
    let ?info' = "innerJoin (neighborsWithType b E) (neighborsWithType a E)"
    from buildPaths_reverse [of "getNodesByIds_pq files g" ?info' ?info a b,
        OF getNodesByIds_pq_set_cong mset_innerJoin_swap]
    have "(\<exists>err. buildPaths (getNodesByIds_pq files g) a b ?info = Inl err \<and>
               buildPaths (getNodesByIds_pq files g) b a ?info' = Inl err)
       \<or> (\<exists>ps qs. buildPaths (getNodesByIds_pq files g) a b ?info = Inr ps \<and>
               buildPaths (getNodesByIds_pq files g) b a ?info' = Inr qs
                  \<and> mset qs = mset (map reversePath ps))"
      by simp
    with e Inr show ?thesis by (simp add: findPaths_pq_def)
  qed
qed

text \<open>
  C9: the path queries from \<open>a\<close> to \<open>b\<close> and from \<open>b\<close> to \<open>a\<close> either both fail
  with the same error or both return, and then they return the same number of paths,
  and the list of unordered end-node pairs per leg of the paths one way is, as a
  multiset, that of the paths the other way with the two legs exchanged; indeed the
  paths the other way are exactly the reversed paths. The columnar store fails only on
  a list of graph ids it cannot read. The relational path query fails on every input,
  in both directions alike, so that for it only the first case occurs.
\<close>

theorem C9_symmetric:
  "((\<exists>err. findPaths_db d g a b = Inl err \<and> findPaths_db d g b a = Inl err)
      \<or> (\<exists>ps qs. findPaths_db d g a b = Inr ps \<and> findPaths_db d g b a = Inr qs
        \<and> length ps = length qs
        \<and> mset (map pathPairs ps) = mset (map (rev \<circ> pathPairs) qs)
        \<and> mset qs = mset (map reversePath ps)))
   \<and> ((\<exists>err. findPaths_pq files g a b = Inl err \<and> findPaths_pq files g b a = Inl err)
      \<or> (\<exists>ps qs. findPaths_pq files g a b = Inr ps \<and> findPaths_pq files g b a = Inr qs
        \<and> length ps = length qs
        \<and> mset (map pathPairs ps) = mset (map (rev \<circ> pathPairs) qs)
        \<and> mset qs = mset (map reversePath ps)))"
proof
  have "\<exists>err. findPaths_db d g a b = Inl err \<and> findPaths_db d g b a = Inl err"
    by (simp add: findPaths_db_fails)
  then show "(\<exists>err. findPaths_db d g a b = Inl err \<and> findPaths_db d g b a = Inl err)
      \<or> (\<exists>ps qs. findPaths_db d g a b = Inr ps \<and> findPaths_db d g b a = Inr qs
        \<and> length ps = length qs
        \<and> mset (map pathPairs ps) = mset (map (rev \<circ> pathPairs) qs)
        \<and> mset qs = mset (map reversePath ps))"
    by (rule disjI1)
next
  from findPaths_pq_reverse [of files g a b]
  show "(\<exists>err. findPaths_pq files g a b = Inl err \<and> findPaths_pq files g b a = Inl err)
      \<or> (\<exists>ps qs. findPaths_pq files g a b = Inr ps \<and> findPaths_pq files g b a = Inr qs
        \<and> length ps = length qs
        \<and> mset (map pathPairs ps) = mset (map (rev \<circ> pathPairs) qs)
        \<and> mset qs = mset (map reversePath ps))"
  proof
    assume "\<exists>err. findPaths_pq files g a b = Inl err \<and> findPaths_pq files g b a = Inl err"
    then show ?thesis by (rule disjI1)
  next
    assume "\<exists>ps qs. findPaths_pq files g a b = Inr ps \<and> findPaths_pq files g b a = Inr qs
          \<and> mset qs = mset (map reversePath ps)"
    then obtain ps qs where
      "findPaths_pq files g a b = Inr ps" "findPaths_pq files g b a = Inr qs"
      and m: "mset qs = mset (map reversePath ps)" by blast
    with reversed_pairs [OF m]
    have "\<exists>ps qs. findPaths_pq files g a b = Inr ps \<and> findPaths_pq files g b a = Inr qs
        \<and> length ps = length qs
        \<and> mset (map pathPairs ps) = mset (map (rev \<circ> pathPairs) qs)
        \<and> mset qs = mset (map reversePath ps)"
      by blast
    then show ?thesis by (rule disjI2)
  qed
qed

text \<open>The witness is in the columnar store, where the two queries return: the one
  path from \<open>A\<close> to \<open>C\<close>, and its reverse from \<open>C\<close> to \<open>A\<close>.\<close>

theorem C9_symmetric_witness:
  "findPaths_pq exFiles [1] ''A'' ''C'' = Inr [exPath]
   \<and> findPaths_pq exFiles [1] ''C'' ''A'' = Inr [reversePath exPath]
   \<and> (\<exists>ps qs. findPaths_pq exFiles [1] ''A'' ''C'' = Inr ps
        \<and> findPaths_pq exFiles [1] ''C'' ''A'' = Inr qs
        \<and> length ps = length qs
        \<and> mset (map pathPairs ps) = mset (map (rev \<circ> pathPairs) qs)
        \<and> mset qs = mset (map reversePath ps))"
proof -
  have h1: "findPaths_pq exFiles [1] ''A'' ''C'' = Inr [exPath]" by code_simp
  have h2: "findPaths_pq exFiles [1] ''C'' ''A'' = Inr [reversePath exPath]" by code_simp
  from conjunct2 [OF C9_symmetric [of exDb "[1]" "''A''" "''C''" exFiles]]
  have r: "\<exists>ps qs. findPaths_pq exFiles [1] ''A'' ''C'' = Inr ps
        \<and> findPaths_pq exFiles [1] ''C'' ''A'' = Inr qs
        \<and> length ps = length qs
        \<and> mset (map pathPairs ps) = mset (map (rev \<circ> pathPairs) qs)
        \<and> mset qs = mset (map reversePath ps)"
  proof
    assume "\<exists>err. findPaths_pq exFiles [1] ''A'' ''C'' = Inl err
              \<and> findPaths_pq exFiles [1] ''C'' ''A'' = Inl err"
    with h1 show ?thesis by simp
  next
    assume "\<exists>ps qs. findPaths_pq exFiles [1] ''A'' ''C'' = Inr ps
        \<and> findPaths_pq exFiles [1] ''C'' ''A'' = Inr qs
        \<and> length ps = length qs
        \<and> mset (map pathPairs ps) = mset (map (rev \<circ> pathPairs) qs)
        \<and> mset qs = mset (map reversePath ps)"
    then show ?thesis .
  qed
  from h1 h2 r show ?thesis by (intro conjI)
qed

end
